theory Spec2Isabelle
  imports Main "HOL-Library.AList"
begin

section \<open>Go strings\<close>

text \<open>
  A Go string is a sequence of bytes; it is modelled as a \<open>string\<close> (a list of 8-bit
  characters).  The library functions of package \<open>strings\<close> and \<open>strconv\<close> that the
  checks call are written out below.  Every byte that the checks look for (the newline,
  \<open>=\<close>, \<open>#\<close>, the quotes, the dot, the digits, \<open>$\<close>, braces) is ASCII, and an ASCII byte
  never occurs inside a multi-byte UTF-8 sequence, so splitting and searching on bytes
  agrees with Go's rune-wise functions.
\<close>

definition byte :: "char \<Rightarrow> int" where
  "byte c = of_char c"

definition isDigit :: "char \<Rightarrow> bool" where
  \<comment> \<open>\<open>'0' <= r && r <= '9'\<close>\<close>
  "isDigit c = (48 \<le> byte c \<and> byte c \<le> 57)"

definition HasPrefix :: "string \<Rightarrow> string \<Rightarrow> bool" where
  "HasPrefix s p = (take (length p) s = p)"

definition TrimPrefix :: "string \<Rightarrow> string \<Rightarrow> string" where
  "TrimPrefix s p = (if HasPrefix s p then drop (length p) s else s)"

text \<open>\<open>strings.Split(s, sep)\<close> for a one-byte separator: the empty string gives one
  empty piece.\<close>

fun Split :: "string \<Rightarrow> char \<Rightarrow> string list" where
  "Split [] sep = [[]]"
| "Split (c # cs) sep =
     (if c = sep then [] # Split cs sep
      else (case Split cs sep of [] \<Rightarrow> [[c]] | p # ps \<Rightarrow> (c # p) # ps))"

text \<open>\<open>strings.TrimFunc(s, f)\<close> for a predicate \<open>f\<close> that holds of every non-ASCII
  rune or of none, so that trimming runes is trimming bytes.\<close>

definition TrimFunc :: "string \<Rightarrow> (char \<Rightarrow> bool) \<Rightarrow> string" where
  "TrimFunc s f = rev (dropWhile f (rev (dropWhile f s)))"

subsection \<open>strconv.Atoi on a 64-bit platform\<close>

text \<open>
  \<open>ParseUint\<close> reads the digits from the left.  A byte that is not a digit is a syntax
  error (value 0); a digit that takes the value beyond \<open>2^64 - 1\<close> is a range error, which
  returns at once with the largest value.  \<open>ParseInt\<close> then clamps to the signed range, and
  \<open>Atoi\<close> returns the value whatever the error; its fast path for short strings computes
  the same number.  \<open>Inl\<close> is the syntax error, \<open>Inr (n, ranged)\<close> a value with the
  range-error flag.
\<close>

definition maxUint64 :: int where
  "maxUint64 = 18446744073709551615"

definition maxInt64 :: int where
  "maxInt64 = 9223372036854775807"

fun ParseUint :: "int \<Rightarrow> string \<Rightarrow> unit + int \<times> bool" where
  "ParseUint n [] = Inr (n, False)"
| "ParseUint n (c # cs) =
     (if \<not> isDigit c then Inl ()
      else if n * 10 + (byte c - 48) > maxUint64 then Inr (maxUint64, True)
      else ParseUint (n * 10 + (byte c - 48)) cs)"

definition ParseInt :: "string \<Rightarrow> int" where
  \<comment> \<open>the value \<open>ParseInt(s, 10, 0)\<close> returns, with or without an error\<close>
  "ParseInt s =
     (if s = [] then 0
      else
        let neg = (hd s = CHR ''-'');
            s' = (if hd s = CHR ''+'' \<or> hd s = CHR ''-'' then tl s else s)
        in if s' = [] then 0
           else (case ParseUint 0 s' of
                   Inl _ \<Rightarrow> 0
                 | Inr (un, _) \<Rightarrow>
                     if \<not> neg \<and> un \<ge> 9223372036854775808 then maxInt64
                     else if neg \<and> un > 9223372036854775808 then - 9223372036854775808
                     else if neg then - un else un))"

definition Atoi :: "string \<Rightarrow> int" where
  \<comment> \<open>\<open>n, _ := strconv.Atoi(s)\<close>\<close>
  "Atoi s = ParseInt s"

subsection \<open>Trimming, splitting and line scanning\<close>

definition newline :: char where
  "newline = CHR 0x0A"

definition dquote :: char where
  "dquote = CHR 0x22"

definition squote :: char where
  "squote = CHR 0x27"

text \<open>\<open>strings.Trim(s, cutset)\<close> for an ASCII cutset: every leading and every trailing
  byte that is in the cutset goes.\<close>

definition Trim :: "string \<Rightarrow> string \<Rightarrow> string" where
  "Trim s cutset = TrimFunc s (\<lambda>c. c \<in> set cutset)"

text \<open>
  \<open>strings.TrimSpace\<close> removes the leading and trailing runes of \<open>unicode.IsSpace\<close>.  On
  bytes, these are the UTF-8 encodings listed in \<open>spaceRunes\<close>: decoding from the left
  or backwards from the right yields a white-space rune exactly when the string starts or
  ends with one of them.
\<close>

definition spaceRunes :: "string list" where
  "spaceRunes =
     [[CHR 0x09], [CHR 0x0A], [CHR 0x0B], [CHR 0x0C], [CHR 0x0D], [CHR 0x20],
      [CHR 0xC2, CHR 0x85], [CHR 0xC2, CHR 0xA0],
      [CHR 0xE1, CHR 0x9A, CHR 0x80],
      [CHR 0xE2, CHR 0x80, CHR 0x80], [CHR 0xE2, CHR 0x80, CHR 0x81],
      [CHR 0xE2, CHR 0x80, CHR 0x82], [CHR 0xE2, CHR 0x80, CHR 0x83],
      [CHR 0xE2, CHR 0x80, CHR 0x84], [CHR 0xE2, CHR 0x80, CHR 0x85],
      [CHR 0xE2, CHR 0x80, CHR 0x86], [CHR 0xE2, CHR 0x80, CHR 0x87],
      [CHR 0xE2, CHR 0x80, CHR 0x88], [CHR 0xE2, CHR 0x80, CHR 0x89],
      [CHR 0xE2, CHR 0x80, CHR 0x8A],
      [CHR 0xE2, CHR 0x80, CHR 0xA8], [CHR 0xE2, CHR 0x80, CHR 0xA9],
      [CHR 0xE2, CHR 0x80, CHR 0xAF], [CHR 0xE2, CHR 0x81, CHR 0x9F],
      [CHR 0xE3, CHR 0x80, CHR 0x80]]"

function dropPrefixes :: "string list \<Rightarrow> string \<Rightarrow> string" where
  "dropPrefixes ps s =
     (case find (\<lambda>p. p \<noteq> [] \<and> HasPrefix s p) ps of
        None \<Rightarrow> s
      | Some p \<Rightarrow> dropPrefixes ps (drop (length p) s))"
  by pat_completeness auto
termination
proof (relation "measure (\<lambda>(ps, s). length s)")
  fix ps :: "string list" and s p :: string
  assume "find (\<lambda>p. p \<noteq> [] \<and> HasPrefix s p) ps = Some p"
  then have "p \<noteq> []" and "take (length p) s = p"
    by (auto simp: find_Some_iff HasPrefix_def)
  then have "s \<noteq> []" by auto
  with \<open>p \<noteq> []\<close> show "((ps, drop (length p) s), (ps, s)) \<in> measure (\<lambda>(ps, s). length s)"
    by simp
qed simp

declare dropPrefixes.simps [simp del]

definition TrimSpace :: "string \<Rightarrow> string" where
  "TrimSpace s = rev (dropPrefixes (map rev spaceRunes) (rev (dropPrefixes spaceRunes s)))"

text \<open>\<open>strings.SplitN(s, sep, 2)\<close> for a one-byte separator: the text before the first
  separator and the text after it, or the whole string alone when it has none.\<close>

definition SplitN2 :: "string \<Rightarrow> char \<Rightarrow> string list" where
  "SplitN2 s sep =
     (if sep \<in> set s then [takeWhile (\<lambda>c. c \<noteq> sep) s, tl (dropWhile (\<lambda>c. c \<noteq> sep) s)]
      else [s])"

text \<open>
  The tokens of a \<open>bufio.Scanner\<close> with the default split function \<open>ScanLines\<close> and the
  default buffer: the lines between newlines, without one trailing carriage return; the
  empty rest after a final newline is no token.  The buffer holds at most
  \<open>MaxScanTokenSize\<close> bytes, so at a line of that many bytes or more \<open>Scan\<close> returns false
  (\<open>ErrTooLong\<close>) and the loop \<open>for scanner.Scan()\<close> ends there: the lines before it have
  been delivered, the rest of the file is not read.
\<close>

definition MaxScanTokenSize :: int where
  "MaxScanTokenSize = 64 * 1024"

definition dropCR :: "string \<Rightarrow> string" where
  "dropCR s = (if s \<noteq> [] \<and> last s = CHR 0x0D then butlast s else s)"

definition rawLines :: "string \<Rightarrow> string list" where
  "rawLines content =
     (let ls = Split content newline in if last ls = [] then butlast ls else ls)"

definition scanLines :: "string \<Rightarrow> string list" where
  "scanLines content =
     map dropCR (takeWhile (\<lambda>l. int (length l) < MaxScanTokenSize) (rawLines content))"

section \<open>Version comparison (internal/tools)\<close>

definition parseVersion :: "string \<Rightarrow> int list" where
  "parseVersion v =
     map (\<lambda>p. Atoi (TrimFunc p (\<lambda>r. \<not> isDigit r))) (Split (TrimPrefix v ''v'') (CHR ''.''))"

function compareLoop :: "nat \<Rightarrow> int list \<Rightarrow> int list \<Rightarrow> int" where
  "compareLoop i parts1 parts2 =
     (if i < 3 then
        (let p1 = (if i < length parts1 then parts1 ! i else 0);
             p2 = (if i < length parts2 then parts2 ! i else 0)
         in if p1 < p2 then - 1
            else if p1 > p2 then 1
            else compareLoop (i + 1) parts1 parts2)
      else 0)"
  by pat_completeness auto
termination
  by (relation "measure (\<lambda>(i, _, _). 3 - i)") auto

declare compareLoop.simps [simp del]

definition CompareVersions :: "string \<Rightarrow> string \<Rightarrow> int" where
  "CompareVersions v1 v2 = compareLoop 0 (parseVersion v1) (parseVersion v2)"

subsection \<open>The comparison as the specification words it\<close>

definition decimalFrom :: "int \<Rightarrow> string \<Rightarrow> int" where
  \<comment> \<open>the number written by the digits, continuing from \<open>n\<close>\<close>
  "decimalFrom n s = foldl (\<lambda>a c. a * 10 + (byte c - 48)) n s"

definition decimal :: "string \<Rightarrow> int" where
  "decimal s = decimalFrom 0 s"

definition pad3 :: "int list \<Rightarrow> int list" where
  \<comment> \<open>the first three segments, an absent one being 0\<close>
  "pad3 xs = take 3 (xs @ [0, 0, 0])"

fun firstDiff :: "int list \<Rightarrow> int list \<Rightarrow> int" where
  "firstDiff (a # as) (b # bs) =
     (if a < b then - 1 else if a > b then 1 else firstDiff as bs)"
| "firstDiff _ _ = 0"

definition spec_segment :: "string \<Rightarrow> int" where
  \<comment> \<open>"each segment has non-digit characters stripped before parsing"\<close>
  "spec_segment p = decimal (filter isDigit p)"

definition spec_CompareVersions :: "string \<Rightarrow> string \<Rightarrow> int" where
  "spec_CompareVersions v1 v2 =
     firstDiff (pad3 (map spec_segment (Split v1 (CHR ''.''))))
               (pad3 (map spec_segment (Split v2 (CHR ''.''))))"

definition segmentValue :: "string \<Rightarrow> int" where
  \<comment> \<open>what the code reads from a segment: non-digits are trimmed at both ends only; the
      rest counts as its decimal value capped at \<open>2^63 - 1\<close> when it is all digits, as
      \<open>2^63 - 1\<close> when its leading digits already exceed \<open>2^64 - 1\<close>, and as 0 otherwise\<close>
  "segmentValue p =
     (let t = TrimFunc p (\<lambda>r. \<not> isDigit r)
      in if list_all isDigit t then min (decimal t) maxInt64
         else if decimal (takeWhile isDigit t) > maxUint64 then maxInt64
         else 0)"

definition amended_CompareVersions :: "string \<Rightarrow> string \<Rightarrow> int" where
  "amended_CompareVersions v1 v2 =
     firstDiff (pad3 (map segmentValue (Split v1 (CHR ''.''))))
               (pad3 (map segmentValue (Split v2 (CHR ''.''))))"

section \<open>Data model (internal/models, internal/config, internal/profiles)\<close>

definition SeverityBlocking :: string where
  "SeverityBlocking = ''blocking''"

definition SeverityWarning :: string where
  "SeverityWarning = ''warning''"

definition SeverityInfo :: string where
  "SeverityInfo = ''info''"

record SourceLocation =
  File :: string
  Line :: int
  Column :: int

record Finding =
  Code :: string
  Severity :: string
  Title :: string
  Details :: string
  Files :: "SourceLocation list"
  SuggestedFix :: string

definition NewFinding :: "string \<Rightarrow> string \<Rightarrow> string \<Rightarrow> Finding" where
  "NewFinding code severity title =
     \<lparr>Code = code, Severity = severity, Title = title, Details = [], Files = [],
      SuggestedFix = []\<rparr>"

definition WithDetails :: "Finding \<Rightarrow> string \<Rightarrow> Finding" where
  "WithDetails f details = f\<lparr>Details := details\<rparr>"

definition WithFile :: "Finding \<Rightarrow> string \<Rightarrow> int \<Rightarrow> Finding" where
  "WithFile f file line = f\<lparr>Files := Files f @ [\<lparr>File = file, Line = line, Column = 0\<rparr>]\<rparr>"

definition WithFix :: "Finding \<Rightarrow> string \<Rightarrow> Finding" where
  "WithFix f fix = f\<lparr>SuggestedFix := fix\<rparr>"

definition SeverityLevel :: "string \<Rightarrow> int" where
  "SeverityLevel s =
     (if s = SeverityBlocking then 3
      else if s = SeverityWarning then 2
      else if s = SeverityInfo then 1
      else 0)"

text \<open>
  Record fields share one name space, so two fields are renamed: \<open>Artifact.Details\<close> is
  \<open>Note\<close> and \<open>CustomRule.Severity\<close> is \<open>RuleSeverity\<close>.  Fields that no check reads
  (\<open>Profile.Description\<close>, \<open>Config.BuildContexts\<close>) are left out.
\<close>

record Artifact =
  Type :: string
  Path :: string
  Language :: string
  Note :: string
  Found :: bool

record Artifacts =
  ComposeFiles :: "Artifact list"
  EnvFiles :: "Artifact list"
  EnvExamples :: "Artifact list"
  Manifests :: "Artifact list"
  Readme :: "Artifact option"
  Makefile :: "Artifact option"
  DetectedLang :: string
  PackageManager :: string

definition HasEnv :: "Artifacts \<Rightarrow> bool" where
  "HasEnv a = list_ex Found (EnvFiles a)"

definition HasEnvExample :: "Artifacts \<Rightarrow> bool" where
  "HasEnvExample a = list_ex Found (EnvExamples a)"

record CustomRule =
  ID :: string
  Pattern :: string
  Required :: bool
  Description :: string
  RuleSeverity :: string

record ToolVersions =
  Docker :: string
  DockerCompose :: string
  Go :: string
  Node :: string
  Python :: string

record Config =
  CustomRules :: "CustomRule list"
  ToolVersions :: "ToolVersions option"
  IgnorePatterns :: "string list"
  IgnoreCodes :: "string list"
  RequiredEnvVars :: "string list"

definition ShouldIgnoreCode :: "Config \<Rightarrow> string \<Rightarrow> bool" where
  "ShouldIgnoreCode c code = list_ex (\<lambda>ignore. ignore = code) (IgnoreCodes c)"

record Profile =
  Name :: string
  MinSeverity :: string
  EnabledChecks :: "string list"
  DisabledChecks :: "string list"
  EnableSourceScanning :: bool
  IncludeInfo :: bool

text \<open>
  The project directory as the checks see it: \<open>files p\<close> is the content that
  \<open>os.ReadFile\<close> or \<open>os.Open\<close> gives for \<open>filepath.Join(basePath, p)\<close>, and \<open>None\<close> when
  the file is missing or cannot be read.
\<close>

type_synonym files = "string \<Rightarrow> string option"

section \<open>Environment files (internal/checker)\<close>

text \<open>
  A Go \<open>map[string]string\<close> is an association list with distinct keys; \<open>result[key] =
  value\<close> is \<open>AList.update\<close> and a lookup is \<open>map_of\<close>.  The order of the list is not the
  order in which Go ranges over the map, which is unspecified: where a check ranges over
  a map and the order shows in its result, the order is a parameter of the model.
\<close>

definition parseLine :: "string \<Rightarrow> (string \<times> string) option" where
  \<comment> \<open>the body of the scanning loop: the key and value that a line adds, if any\<close>
  "parseLine text =
     (let line = TrimSpace text
      in if line = [] \<or> HasPrefix line ''#'' then None
         else
           (let parts = SplitN2 line (CHR ''='')
            in if length parts = 2
               then Some (TrimSpace (parts ! 0), Trim (TrimSpace (parts ! 1)) [dquote, squote])
               else None))"

definition parseEnvFile :: "files \<Rightarrow> string \<Rightarrow> (string \<times> string) list" where
  "parseEnvFile files path =
     (case files path of
        None \<Rightarrow> []
      | Some content \<Rightarrow>
          foldl (\<lambda>result text. case parseLine text of
                                 None \<Rightarrow> result
                               | Some (key, val) \<Rightarrow> AList.update key val result)
                [] (scanLines content))"

subsection \<open>The Environment Resolver as the specification words it\<close>

definition spec_unquote :: "string \<Rightarrow> string" where
  \<comment> \<open>"strip one layer of matching single or double quotes from the value"\<close>
  "spec_unquote v =
     (if 2 \<le> length v \<and> hd v = last v \<and> (hd v = dquote \<or> hd v = squote)
      then butlast (tl v) else v)"

definition spec_line :: "(string \<Rightarrow> string) \<Rightarrow> string \<Rightarrow> (string \<times> string) option" where
  \<comment> \<open>skip blank lines and comments, ignore a line without \<open>=\<close>, split on the first
      \<open>=\<close>, trim key and value, unquote the value\<close>
  "spec_line unquote text =
     (let line = TrimSpace text
      in if line = [] then None
         else if hd line = CHR ''#'' then None
         else if CHR ''='' \<notin> set line then None
         else Some (TrimSpace (takeWhile (\<lambda>c. c \<noteq> CHR ''='') line),
                    unquote (TrimSpace (tl (dropWhile (\<lambda>c. c \<noteq> CHR ''='') line)))))"

definition spec_resolve :: "(string \<Rightarrow> string) \<Rightarrow> files \<Rightarrow> string \<Rightarrow> string \<rightharpoonup> string" where
  \<comment> \<open>line by line, the last occurrence of a key wins; no file, no entries\<close>
  "spec_resolve unquote files path =
     (case files path of
        None \<Rightarrow> Map.empty
      | Some content \<Rightarrow>
          map_of (rev (List.map_filter (spec_line unquote) (Split content newline))))"

definition spec_parseEnvFile :: "files \<Rightarrow> string \<Rightarrow> string \<rightharpoonup> string" where
  "spec_parseEnvFile = spec_resolve spec_unquote"

definition amended_parseEnvFile :: "files \<Rightarrow> string \<Rightarrow> string \<rightharpoonup> string" where
  \<comment> \<open>the same, with every leading and trailing quote character of either kind removed\<close>
  "amended_parseEnvFile = spec_resolve (\<lambda>v. Trim v [dquote, squote])"

definition shortLines :: "files \<Rightarrow> string \<Rightarrow> bool" where
  \<comment> \<open>every line of the file, if there is one, fits the scanner's buffer\<close>
  "shortLines files path =
     (case files path of
        None \<Rightarrow> True
      | Some content \<Rightarrow> list_all (\<lambda>l. int (length l) < MaxScanTokenSize) (Split content newline))"

definition spec_keys :: "files \<Rightarrow> string \<Rightarrow> string list" where
  \<comment> \<open>the keys that the reference reads in a file, line by line; the unquoting step
      plays no part in them\<close>
  "spec_keys files path =
     (case files path of
        None \<Rightarrow> []
      | Some content \<Rightarrow>
          map fst (List.map_filter (spec_line spec_unquote) (Split content newline)))"

definition quotedEnv :: files where
  \<comment> \<open>a project whose \<open>.env\<close> holds \<open>A=""v""\<close> and \<open>B="v\<close>\<close>
  "quotedEnv p =
     (if p = ''.env''
      then Some (''A='' @ [dquote, dquote] @ ''v'' @ [dquote, dquote] @ [newline] @
                 ''B='' @ [dquote] @ ''v'' @ [newline])
      else None)"

definition sampleEnv :: files where
  \<comment> \<open>a project whose \<open>.env\<close> holds the lines \<open>A=1\<close>, \<open>A=2\<close>, \<open># note\<close>, \<open>plain\<close>,
      \<open>KEY="v"\<close> and \<open>K2 = 'v'\<close>, and that has no other file\<close>
  "sampleEnv p =
     (if p = ''.env''
      then Some (''A=1'' @ [newline] @ ''A=2'' @ [newline] @ ''# note'' @ [newline] @
                 ''plain'' @ [newline] @
                 ''KEY='' @ [dquote] @ ''v'' @ [dquote] @ [newline] @
                 '' K2 = '' @ [squote] @ ''v'' @ [squote] @ [CHR 0x0D, newline])
      else None)"

definition longEnvContent :: string where
  \<comment> \<open>a comment line of 65536 bytes, then the line \<open>A=1\<close>\<close>
  "longEnvContent = replicate 65536 (CHR ''#'') @ newline # ''A=1''"

definition longEnvProject :: files where
  "longEnvProject p = (if p = ''.env'' then Some longEnvContent else None)"

definition longDbContent :: string where
  \<comment> \<open>a comment line of 65536 bytes, then the line \<open>DATABASE_URL=x\<close>\<close>
  "longDbContent = replicate 65536 (CHR ''#'') @ newline # ''DATABASE_URL=x''"

definition longDbProject :: files where
  "longDbProject p = (if p = ''.env'' then Some longDbContent else None)"

definition collectDefined :: "files \<Rightarrow> Artifacts \<Rightarrow> string list" where
  \<comment> \<open>the keys of \<open>definedVars\<close>: the names defined in the environment files found\<close>
  "collectDefined files artifacts =
     foldl (\<lambda>definedVars envFile.
              if Found envFile
              then foldl (\<lambda>d k. List.insert k d) definedVars
                         (map fst (parseEnvFile files (Path envFile)))
              else definedVars)
           [] (EnvFiles artifacts)"

definition isStandardVar :: "string \<Rightarrow> bool" where
  "isStandardVar name =
     (name \<in> set [''HOME'', ''USER'', ''PATH'', ''PWD'', ''SHELL'', ''TERM'', ''HOSTNAME'',
                   ''UID'', ''GID''])"

section \<open>Environment example check (internal/checker)\<close>

definition env003Finding :: "string \<Rightarrow> Finding" where
  "env003Finding examplePath =
     WithFix
       (WithFile
          (WithDetails
             (NewFinding ''ENV003'' SeverityWarning ''.env.example exists but .env is missing'')
             (examplePath @ '' exists but no .env file found''))
          examplePath 0)
       ''Copy .env.example to .env and fill in values''"

definition env002Finding :: "string \<Rightarrow> string \<Rightarrow> string \<Rightarrow> Finding" where
  "env002Finding examplePath envPath key =
     WithFix
       (WithDetails
          (NewFinding ''ENV002'' SeverityWarning
             (examplePath @ '' has '' @ key @ '' but '' @ envPath @ '' does not''))
          (''Variable '' @ key @ '' is defined in '' @ examplePath @ '' but missing from '' @
           envPath))
       (''Add '' @ key @ ''=<value> to '' @ envPath)"

definition firstExample :: "Artifacts \<Rightarrow> Artifact option" where
  \<comment> \<open>the loop over \<open>EnvExamples\<close> that breaks at the first one found\<close>
  "firstExample artifacts = find Found (EnvExamples artifacts)"

definition primaryEnv :: "Artifacts \<Rightarrow> Artifact option" where
  \<comment> \<open>the loop over \<open>EnvFiles\<close> that breaks at the first one found whose path is
      \<open>.env\<close> or \<open>.env.local\<close>\<close>
  "primaryEnv artifacts =
     find (\<lambda>e. Found e \<and> (Path e = ''.env'' \<or> Path e = ''.env.local'')) (EnvFiles artifacts)"

definition pathOf :: "Artifact option \<Rightarrow> string" where
  \<comment> \<open>a path variable that stays empty when the loop finds nothing\<close>
  "pathOf e = (case e of None \<Rightarrow> [] | Some a \<Rightarrow> Path a)"

text \<open>
  \<open>rangeKeys\<close> is the order in which \<open>for key := range exampleVars\<close> visits the keys.  A
  map variable that is never assigned stays \<open>nil\<close>, here \<open>None\<close>.
\<close>

definition checkEnvExample ::
  "((string \<times> string) list \<Rightarrow> string list) \<Rightarrow> files \<Rightarrow> Artifacts \<Rightarrow> Finding list" where
  "checkEnvExample rangeKeys files artifacts =
     (let hasExample = HasEnvExample artifacts;
          hasEnv = HasEnv artifacts;
          findings = (if hasExample \<and> \<not> hasEnv
                      then [env003Finding (pathOf (firstExample artifacts))] else [])
      in if hasExample \<and> hasEnv
         then
           (let examplePath = pathOf (firstExample artifacts);
                exampleVars = map_option (\<lambda>e. parseEnvFile files (Path e)) (firstExample artifacts);
                envPath = pathOf (primaryEnv artifacts);
                envVars = map_option (\<lambda>e. parseEnvFile files (Path e)) (primaryEnv artifacts)
            in case (exampleVars, envVars) of
                 (Some ex, Some env) \<Rightarrow>
                   foldl (\<lambda>fs key. if map_of env key = None
                                    then fs @ [env002Finding examplePath envPath key] else fs)
                         findings (rangeKeys ex)
               | _ \<Rightarrow> findings)
         else findings)"


definition listOrder :: "(string \<times> string) list \<Rightarrow> string list" where
  \<comment> \<open>one such order\<close>
  "listOrder m = remdups (map fst m)"

definition artifact :: "string \<Rightarrow> string \<Rightarrow> bool \<Rightarrow> Artifact" where
  \<comment> \<open>\<open>models.Artifact{Type: t, Path: p, Found: found}\<close>\<close>
  "artifact t p found = \<lparr>Type = t, Path = p, Language = [], Note = [], Found = found\<rparr>"

definition NewArtifacts :: Artifacts where
  "NewArtifacts =
     \<lparr>ComposeFiles = [], EnvFiles = [], EnvExamples = [], Manifests = [], Readme = None,
      Makefile = None, DetectedLang = [], PackageManager = []\<rparr>"

definition exampleProject :: files where
  \<comment> \<open>\<open>.env.example\<close> defines A and B; \<open>.env\<close> and \<open>.env.development\<close> define A\<close>
  "exampleProject p =
     (if p = ''.env.example'' then Some (''A=1'' @ [newline] @ ''B=2'' @ [newline])
      else if p = ''.env'' \<or> p = ''.env.development'' then Some (''A=1'' @ [newline])
      else None)"

definition longPrimaryProject :: files where
  \<comment> \<open>\<open>.env.example\<close> defines A and B; \<open>.env\<close> defines A, after a comment line of
      65536 bytes\<close>
  "longPrimaryProject p =
     (if p = ''.env.example'' then Some (''A=1'' @ [newline] @ ''B=2'' @ [newline])
      else if p = ''.env'' then Some longEnvContent
      else None)"

definition envCandidates :: "bool \<Rightarrow> bool \<Rightarrow> Artifact list" where
  \<comment> \<open>what \<open>detectEnvFiles\<close> records for the four standard names, given which of
      \<open>.env\<close> and \<open>.env.development\<close> exist\<close>
  "envCandidates env dev =
     [artifact ''env'' ''.env'' env, artifact ''env'' ''.env.local'' False,
      artifact ''env'' ''.env.development'' dev, artifact ''env'' ''.env.dev'' False]"

definition exampleArtifact :: Artifact where
  "exampleArtifact = artifact ''env_example'' ''.env.example'' True"

definition exampleOnly :: Artifacts where
  \<comment> \<open>an example file and no environment file\<close>
  "exampleOnly = NewArtifacts\<lparr>EnvFiles := envCandidates False False, EnvExamples := [exampleArtifact]\<rparr>"

definition exampleAndEnv :: Artifacts where
  \<comment> \<open>an example file and \<open>.env\<close>\<close>
  "exampleAndEnv = NewArtifacts\<lparr>EnvFiles := envCandidates True False, EnvExamples := [exampleArtifact]\<rparr>"

definition exampleAndDev :: Artifacts where
  \<comment> \<open>an example file and \<open>.env.development\<close>, but neither \<open>.env\<close> nor \<open>.env.local\<close>\<close>
  "exampleAndDev = NewArtifacts\<lparr>EnvFiles := envCandidates False True, EnvExamples := [exampleArtifact]\<rparr>"

section \<open>Ignore-code and profile filters (internal/checker, internal/profiles, cmd)\<close>

definition filterIgnoredFindings :: "Finding list \<Rightarrow> Config \<Rightarrow> Finding list" where
  "filterIgnoredFindings findings cfg =
     (if length (IgnoreCodes cfg) = 0 then findings
      else foldl (\<lambda>filtered f. if \<not> ShouldIgnoreCode cfg (Code f) then filtered @ [f]
                                else filtered)
                 [] findings)"

fun contains :: "string list \<Rightarrow> string \<Rightarrow> bool" where
  "contains [] s = False"
| "contains (item # slice) s = (if item = s then True else contains slice s)"

definition FilterFindings :: "Profile \<Rightarrow> Finding list \<Rightarrow> Finding list" where
  "FilterFindings p findings =
     foldl (\<lambda>filtered f.
              if SeverityLevel (Severity f) < SeverityLevel (MinSeverity p) then filtered
              else if Severity f = SeverityInfo \<and> \<not> IncludeInfo p then filtered
              else if length (EnabledChecks p) > 0 \<and> \<not> contains (EnabledChecks p) (Code f)
                   then filtered
              else if contains (DisabledChecks p) (Code f) then filtered
              else filtered @ [f])
           [] findings"

definition BuiltinProfiles :: "(string \<times> Profile) list" where
  "BuiltinProfiles =
     [(''default'', \<lparr>Name = ''default'', MinSeverity = SeverityInfo, EnabledChecks = [],
                     DisabledChecks = [], EnableSourceScanning = False, IncludeInfo = True\<rparr>),
      (''strict'', \<lparr>Name = ''strict'', MinSeverity = SeverityInfo, EnabledChecks = [],
                    DisabledChecks = [], EnableSourceScanning = True, IncludeInfo = True\<rparr>),
      (''ci'', \<lparr>Name = ''ci'', MinSeverity = SeverityWarning, EnabledChecks = [],
                DisabledChecks = [], EnableSourceScanning = False, IncludeInfo = False\<rparr>),
      (''minimal'', \<lparr>Name = ''minimal'', MinSeverity = SeverityBlocking, EnabledChecks = [],
                     DisabledChecks = [], EnableSourceScanning = False, IncludeInfo = False\<rparr>),
      (''full'', \<lparr>Name = ''full'', MinSeverity = SeverityInfo, EnabledChecks = [],
                  DisabledChecks = [], EnableSourceScanning = True, IncludeInfo = True\<rparr>)]"

definition Get :: "string \<Rightarrow> Profile option" where
  "Get name = map_of BuiltinProfiles name"

definition applyFilters :: "Config \<Rightarrow> Profile \<Rightarrow> Finding list \<Rightarrow> Finding list" where
  \<comment> \<open>the end of \<open>CheckWithOptions\<close> on the concatenated findings, then the profile filter
      that \<open>runScan\<close> applies to its result\<close>
  "applyFilters cfg profile findings = FilterFindings profile (filterIgnoredFindings findings cfg)"

definition profileKeeps :: "Profile \<Rightarrow> Finding \<Rightarrow> bool" where
  \<comment> \<open>the profile filter in the words of the specification\<close>
  "profileKeeps p f =
     (\<not> SeverityLevel (Severity f) < SeverityLevel (MinSeverity p) \<and>
      (Severity f = SeverityInfo \<longrightarrow> IncludeInfo p) \<and>
      (EnabledChecks p \<noteq> [] \<longrightarrow> Code f \<in> set (EnabledChecks p)) \<and>
      Code f \<notin> set (DisabledChecks p))"

definition DefaultConfig :: Config where
  "DefaultConfig =
     \<lparr>CustomRules = [], ToolVersions = None, IgnorePatterns = [], IgnoreCodes = [],
      RequiredEnvVars = []\<rparr>"

definition sixFindings :: "Finding list" where
  \<comment> \<open>one blocking, two warning and three info findings, in the order of the checks\<close>
  "sixFindings =
     [NewFinding ''ENV001'' SeverityBlocking ''b1'',
      NewFinding ''ENV002'' SeverityWarning ''w1'',
      NewFinding ''ENV003'' SeverityWarning ''w2'',
      NewFinding ''LANG001'' SeverityInfo ''i1'',
      NewFinding ''HINT001'' SeverityInfo ''i2'',
      NewFinding ''LANG001'' SeverityInfo ''i3'']"

section \<open>Custom rules (internal/checker)\<close>

text \<open>
  \<open>regexp.Compile\<close> is a parameter: \<open>compile pattern\<close> is \<open>None\<close> when the pattern does not
  compile, and otherwise the predicate \<open>MatchString\<close> of the compiled expression.
\<close>

type_synonym regexpCompile = "string \<Rightarrow> (string \<Rightarrow> bool) option"

definition ruleSeverity :: "CustomRule \<Rightarrow> string" where
  "ruleSeverity rule =
     (if RuleSeverity rule = ''blocking'' then SeverityBlocking
      else if RuleSeverity rule = ''info'' then SeverityInfo
      else SeverityWarning)"

definition customFinding :: "CustomRule \<Rightarrow> Finding" where
  "customFinding rule =
     WithFix
       (WithDetails
          (NewFinding (''CUSTOM-'' @ ID rule) (ruleSeverity rule)
             (''Custom rule '' @ [squote] @ ID rule @ [squote] @ '' not satisfied''))
          (Description rule))
       (''Define a variable matching pattern: '' @ Pattern rule)"

definition checkCustomRules :: "regexpCompile \<Rightarrow> files \<Rightarrow> Artifacts \<Rightarrow> Config \<Rightarrow> Finding list" where
  "checkCustomRules compile files artifacts cfg =
     (if length (CustomRules cfg) = 0 then []
      else
        (let definedVars = collectDefined files artifacts
         in foldl (\<lambda>findings rule.
                     if \<not> Required rule then findings
                     else (case compile (Pattern rule) of
                             None \<Rightarrow> findings
                           | Some matchString \<Rightarrow>
                               if list_ex matchString definedVars then findings
                               else findings @ [customFinding rule]))
                  [] (CustomRules cfg)))"

definition spec_ruleFindings :: "regexpCompile \<Rightarrow> string list \<Rightarrow> CustomRule \<Rightarrow> Finding list" where
  \<comment> \<open>what one rule contributes, in the words of the specification: nothing unless it is
      required and its pattern compiles; then one finding if no defined name matches\<close>
  "spec_ruleFindings compile defined rule =
     (if Required rule
      then (case compile (Pattern rule) of
              None \<Rightarrow> []
            | Some matchString \<Rightarrow>
                if (\<exists>name \<in> set defined. matchString name) then [] else [customFinding rule])
      else [])"

definition sampleCompile :: regexpCompile where
  \<comment> \<open>\<open>regexp.Compile\<close> on three patterns: an anchored prefix, a pattern that matches
      everything, and an unbalanced parenthesis, which does not compile\<close>
  "sampleCompile pattern =
     (if pattern = ''^DATABASE_'' then Some (\<lambda>name. HasPrefix name ''DATABASE_'')
      else if pattern = ''('' then None
      else Some (\<lambda>name. True))"

definition sampleRules :: Config where
  "sampleRules =
     DefaultConfig\<lparr>CustomRules :=
       [\<lparr>ID = ''DB_REQUIRED'', Pattern = ''^DATABASE_'', Required = True,
         Description = ''Database variables must be defined'', RuleSeverity = ''blocking''\<rparr>,
        \<lparr>ID = ''ANY'', Pattern = ''.'', Required = True,
         Description = ''Some variable'', RuleSeverity = ''''\<rparr>,
        \<lparr>ID = ''BROKEN'', Pattern = ''('', Required = True,
         Description = ''Does not compile'', RuleSeverity = ''blocking''\<rparr>,
        \<lparr>ID = ''OPTIONAL'', Pattern = ''^DATABASE_'', Required = False,
         Description = ''Not required'', RuleSeverity = ''info''\<rparr>]\<rparr>"

definition spec_definedNames :: "files \<Rightarrow> Artifacts \<Rightarrow> string list" where
  \<comment> \<open>"defined across the present environment files": the keys that the reference reads
      in the environment files found\<close>
  "spec_definedNames files artifacts =
     concat (map (\<lambda>envFile. spec_keys files (Path envFile))
                 (filter Found (EnvFiles artifacts)))"

definition spec_checkCustomRules ::
  "regexpCompile \<Rightarrow> files \<Rightarrow> Artifacts \<Rightarrow> Config \<Rightarrow> Finding list" where
  \<comment> \<open>the custom rule engine in the words of the specification: what each rule
      contributes, given the names that the environment files define\<close>
  "spec_checkCustomRules compile files artifacts cfg =
     concat (map (spec_ruleFindings compile (spec_definedNames files artifacts))
                 (CustomRules cfg))"

definition dbRequired :: CustomRule where
  "dbRequired =
     \<lparr>ID = ''DB_REQUIRED'', Pattern = ''^DATABASE_'', Required = True,
      Description = ''Database variables must be defined'', RuleSeverity = ''blocking''\<rparr>"

definition dbRequiredConfig :: Config where
  "dbRequiredConfig = DefaultConfig\<lparr>CustomRules := [dbRequired]\<rparr>"

definition envOnly :: Artifacts where
  \<comment> \<open>\<open>.env\<close> and no other file\<close>
  "envOnly = NewArtifacts\<lparr>EnvFiles := envCandidates True False\<rparr>"

section \<open>Service dependencies (internal/checker)\<close>

text \<open>
  A \<open>yaml.Node\<close> as \<open>gopkg.in/yaml.v3\<close> decodes it: its kind (\<open>NoKind\<close> is the zero value
  of a field that the document does not have), its scalar value and its children.  A
  mapping node lists its keys and values in turn.
\<close>

datatype yamlKind = NoKind | DocumentNode | SequenceNode | MappingNode | ScalarNode | AliasNode

datatype yamlNode = YamlNode (Kind: yamlKind) (Value: string) (Content: "yamlNode list")

fun mappingKeys :: "yamlNode list \<Rightarrow> string list" where
  \<comment> \<open>\<open>for i := 0; i < len(node.Content); i += 2 { deps = append(deps, node.Content[i].Value) }\<close>\<close>
  "mappingKeys (k # v # rest) = Value k # mappingKeys rest"
| "mappingKeys [k] = [Value k]"
| "mappingKeys [] = []"

definition extractDependsOn :: "yamlNode \<Rightarrow> string list" where
  "extractDependsOn node =
     (if Kind node = NoKind then []
      else if Kind node = SequenceNode
      then foldl (\<lambda>deps item. if Kind item = ScalarNode then deps @ [Value item] else deps)
                 [] (Content node)
      else if Kind node = MappingNode then mappingKeys (Content node)
      else [])"

text \<open>
  \<open>yaml.Unmarshal\<close> into the struct with the \<open>services\<close> map is a parameter: \<open>None\<close> when
  it returns an error, otherwise the services with their \<open>depends_on\<close> nodes, listed in the
  order in which the check ranges over the map.
\<close>

type_synonym unmarshal = "string \<Rightarrow> (string \<times> yamlNode) list option"

definition cmp001Finding :: "string \<Rightarrow> string \<Rightarrow> string \<Rightarrow> Finding" where
  "cmp001Finding svcName dep path =
     WithFix
       (WithFile
          (WithDetails
             (NewFinding ''CMP001'' SeverityBlocking
                (''Service '' @ svcName @ '' depends on unknown service '' @ dep))
             (''depends_on references '' @ dep @ '' which is not defined in '' @ path))
          path 0)
       (''Add service '' @ dep @ '' to '' @ path @ '' or remove from depends_on'')"

definition checkComposeDependsOn :: "unmarshal \<Rightarrow> files \<Rightarrow> Artifacts \<Rightarrow> Finding list" where
  "checkComposeDependsOn unmarshal files artifacts =
     foldl (\<lambda>findings composeFile.
              if \<not> Found composeFile then findings
              else (case files (Path composeFile) of
                      None \<Rightarrow> findings
                    | Some content \<Rightarrow>
                        (case unmarshal content of
                           None \<Rightarrow> findings
                         | Some services \<Rightarrow>
                             (let serviceNames = map fst services
                              in foldl (\<lambda>findings (svcName, dependsOn).
                                          foldl (\<lambda>findings dep.
                                                   if dep \<notin> set serviceNames
                                                   then findings @
                                                        [cmp001Finding svcName dep (Path composeFile)]
                                                   else findings)
                                                findings (extractDependsOn dependsOn))
                                       findings services))))
           [] (ComposeFiles artifacts)"

subsection \<open>The validator as the specification words it\<close>

definition spec_unknownDeps :: "(string \<times> yamlNode) list \<Rightarrow> (string \<times> string) list" where
  \<comment> \<open>every dependency reference that is not a declared service name, with its dependent\<close>
  "spec_unknownDeps services =
     concat (map (\<lambda>(svcName, dependsOn).
                    map (\<lambda>dep. (svcName, dep))
                        (filter (\<lambda>dep. dep \<notin> fst ` set services) (extractDependsOn dependsOn)))
                 services)"

definition spec_manifestFindings :: "unmarshal \<Rightarrow> files \<Rightarrow> Artifact \<Rightarrow> Finding list" where
  \<comment> \<open>one finding per such reference, for a manifest that is found, read and parsed\<close>
  "spec_manifestFindings unmarshal files composeFile =
     (case (if Found composeFile then files (Path composeFile) else None) of
        None \<Rightarrow> []
      | Some content \<Rightarrow>
          (case unmarshal content of
             None \<Rightarrow> []
           | Some services \<Rightarrow>
               map (\<lambda>(svcName, dep). cmp001Finding svcName dep (Path composeFile))
                   (spec_unknownDeps services)))"








section \<open>Reference scanners (internal/checker)\<close>

text \<open>
  \<open>FindAllStringSubmatch(line, -1)\<close> for an expression with one capture group, given the
  match of the expression at the start of a string (the captured text and the text after
  the match): the leftmost match is taken, and the search goes on after it.  The
  expressions below never match the empty string; for such a match Go moves on by one
  byte, and so does the guard.
\<close>

function findAll :: "(string \<Rightarrow> (string \<times> string) option) \<Rightarrow> string \<Rightarrow> string list" where
  "findAll m s =
     (case m s of
        Some (name, rest) \<Rightarrow>
          name # (if length rest < length s then findAll m rest
                  else (case s of [] \<Rightarrow> [] | _ # s' \<Rightarrow> findAll m s'))
      | None \<Rightarrow> (case s of [] \<Rightarrow> [] | _ # s' \<Rightarrow> findAll m s'))"
  by pat_completeness auto
termination
  by (relation "measure (\<lambda>(m, s). length s)") auto

declare findAll.simps [simp del]

subsection \<open>References in compose files\<close>

text \<open>
  The expression \<open>\$\{([^}:]+)(?::-[^}]*)?\}\<close> at the start of a string.  The name is the
  longest run of bytes other than \<open>}\<close> and \<open>:\<close>; a shorter name is followed by a byte of the
  run, which neither closes the reference nor starts a default, so the first attempt is
  the only one.  After the name comes \<open>}\<close>, or \<open>:-\<close>, any bytes other than \<open>}\<close>, and \<open>}\<close>.
\<close>

definition matchVarRef :: "string \<Rightarrow> (string \<times> string) option" where
  "matchVarRef s =
     (if HasPrefix s ''${''
      then
        (let t = drop 2 s;
             name = takeWhile (\<lambda>c. c \<noteq> CHR ''}'' \<and> c \<noteq> CHR '':'') t;
             u = dropWhile (\<lambda>c. c \<noteq> CHR ''}'' \<and> c \<noteq> CHR '':'') t
         in if name = [] then None
            else (case u of
                    [] \<Rightarrow> None
                  | c # u' \<Rightarrow>
                      if c = CHR ''}'' then Some (name, u')
                      else if HasPrefix u' ''-''
                      then (case dropWhile (\<lambda>c. c \<noteq> CHR ''}'') (drop 1 u') of
                              [] \<Rightarrow> None
                            | _ # w \<Rightarrow> Some (name, w))
                      else None))
      else None)"

definition env001Title :: "string \<Rightarrow> string" where
  "env001Title varName = ''${'' @ varName @ ''} referenced but not defined''"

definition env001Finding :: "string \<Rightarrow> string \<Rightarrow> int \<Rightarrow> Finding" where
  "env001Finding varName path lineNum =
     WithFix
       (WithFile
          (WithDetails
             (NewFinding ''ENV001'' SeverityBlocking (env001Title varName))
             (''Variable ${'' @ varName @ ''} is used in '' @ path @
              '' but is not defined in any .env file''))
          path lineNum)
       (''Add '' @ varName @ ''=<value> to .env file'')"

definition checkComposeEnvRefs :: "files \<Rightarrow> Artifacts \<Rightarrow> Finding list" where
  "checkComposeEnvRefs files artifacts =
     (let definedVars = collectDefined files artifacts
      in foldl (\<lambda>findings composeFile.
                  if \<not> Found composeFile then findings
                  else (case files (Path composeFile) of
                          None \<Rightarrow> findings
                        | Some content \<Rightarrow>
                            fst (foldl (\<lambda>(findings, lineNum) line.
                                          (foldl (\<lambda>findings varName.
                                                    if varName \<notin> set definedVars \<and>
                                                       \<not> isStandardVar varName
                                                    then findings @
                                                         [env001Finding varName (Path composeFile)
                                                            (lineNum + 1)]
                                                    else findings)
                                                 findings (findAll matchVarRef line),
                                           lineNum + 1))
                                       (findings, 0) (scanLines content))))
               [] (ComposeFiles artifacts))"

subsection \<open>The compose scanner as the specification words it\<close>

primrec numberedFrom :: "int \<Rightarrow> string list \<Rightarrow> (int \<times> string) list" where
  "numberedFrom k [] = []"
| "numberedFrom k (l # ls) = (k + 1, l) # numberedFrom (k + 1) ls"

definition numbered :: "string list \<Rightarrow> (int \<times> string) list" where
  \<comment> \<open>lines with their numbers, from 1\<close>
  "numbered ls = numberedFrom 0 ls"

definition textLines :: "string \<Rightarrow> string list" where
  \<comment> \<open>the lines of a text: a newline, or a carriage return and a newline, ends a line\<close>
  "textLines content = map dropCR (rawLines content)"

definition occurrencesIn :: "string list \<Rightarrow> (string \<times> int) list" where
  \<comment> \<open>every occurrence of \<open>${VAR}\<close> or \<open>${VAR:-default}\<close> in the lines: its name and line\<close>
  "occurrencesIn ls =
     concat (map (\<lambda>(n, l). map (\<lambda>varName. (varName, n)) (findAll matchVarRef l)) (numbered ls))"

definition spec_occurrences :: "string \<Rightarrow> (string \<times> int) list" where
  "spec_occurrences content = occurrencesIn (textLines content)"

definition occurrenceFindings ::
  "(string \<Rightarrow> string list) \<Rightarrow> files \<Rightarrow> Artifacts \<Rightarrow> Artifact \<Rightarrow> Finding list" where
  \<comment> \<open>for a compose file that is found and read, one finding for every occurrence, in
      the given lines of its text, of a name that is neither defined nor standard\<close>
  "occurrenceFindings lines files artifacts composeFile =
     (case (if Found composeFile then files (Path composeFile) else None) of
        None \<Rightarrow> []
      | Some content \<Rightarrow>
          map (\<lambda>(varName, n). env001Finding varName (Path composeFile) n)
              (filter (\<lambda>(varName, n). varName \<notin> set (collectDefined files artifacts) \<and>
                                       \<not> isStandardVar varName)
                      (occurrencesIn (lines content))))"

definition spec_checkComposeEnvRefs :: "files \<Rightarrow> Artifacts \<Rightarrow> Finding list" where
  \<comment> \<open>the findings for every line of every found compose file\<close>
  "spec_checkComposeEnvRefs files artifacts =
     concat (map (occurrenceFindings textLines files artifacts) (ComposeFiles artifacts))"

definition longLineContent :: string where
  \<comment> \<open>a first line that is a comment of 65536 bytes, and a second line that refers to
      the variable \<open>X\<close>\<close>
  "longLineContent = replicate 65536 (CHR ''#'') @ newline # (''image: ${X}'' @ [newline])"

definition longLineProject :: files where
  \<comment> \<open>a project with this compose file and no other file\<close>
  "longLineProject p = (if p = ''compose.yaml'' then Some longLineContent else None)"

definition refsProject :: files where
  \<comment> \<open>a compose file that refers to \<open>DB\<close> twice, to \<open>HOME\<close>, and to \<open>A\<close> with a default;
      \<open>.env\<close> defines \<open>A\<close>\<close>
  "refsProject p =
     (if p = ''compose.yaml''
      then Some (''a: ${DB}'' @ [newline] @ ''b: ${HOME}/${DB} ${A:-1}'' @ [newline])
      else if p = ''.env'' then Some (''A=1'' @ [newline])
      else None)"

definition composeOnly :: Artifacts where
  "composeOnly = NewArtifacts\<lparr>ComposeFiles := [artifact ''compose'' ''compose.yaml'' True]\<rparr>"

definition composeAndEnv :: Artifacts where
  "composeAndEnv =
     NewArtifacts\<lparr>ComposeFiles := [artifact ''compose'' ''compose.yaml'' True],
                  EnvFiles := envCandidates True False\<rparr>"

subsection \<open>References in source files\<close>

text \<open>
  The seven expressions are sequences of four kinds of element: a literal text, \<open>\\s*\<close>,
  one quote character \<open>['"]\<close>, and the captured name \<open>([A-Za-z_][A-Za-z0-9_]*)\<close>.  Every
  repetition is followed by an element that begins with a byte outside the repeated class
  (or by the end of the expression), so the longest repetition is the only one that can
  lead to a match, and \<open>matchElems\<close> takes it.  \<open>\\s\<close> is \<open>[\\t\\n\\f\\r ]\<close> in Go.
\<close>

datatype elem = Lit string | Spaces | Quote | Ident

definition isReSpace :: "char \<Rightarrow> bool" where
  "isReSpace c = (c \<in> set [CHR 0x09, CHR 0x0A, CHR 0x0C, CHR 0x0D, CHR 0x20])"

definition isLetter :: "char \<Rightarrow> bool" where
  "isLetter c = ((65 \<le> byte c \<and> byte c \<le> 90) \<or> (97 \<le> byte c \<and> byte c \<le> 122))"

definition identStart :: "char \<Rightarrow> bool" where
  \<comment> \<open>\<open>[A-Za-z_]\<close>\<close>
  "identStart c = (isLetter c \<or> c = CHR ''_'')"

definition identChar :: "char \<Rightarrow> bool" where
  \<comment> \<open>\<open>[A-Za-z0-9_]\<close>\<close>
  "identChar c = (isLetter c \<or> isDigit c \<or> c = CHR ''_'')"

fun matchElems :: "elem list \<Rightarrow> string \<Rightarrow> string \<Rightarrow> (string \<times> string) option" where
  "matchElems [] cap s = Some (cap, s)"
| "matchElems (Lit l # es) cap s =
     (if HasPrefix s l then matchElems es cap (drop (length l) s) else None)"
| "matchElems (Spaces # es) cap s = matchElems es cap (dropWhile isReSpace s)"
| "matchElems (Quote # es) cap s =
     (case s of
        [] \<Rightarrow> None
      | c # s' \<Rightarrow> if c = dquote \<or> c = squote then matchElems es cap s' else None)"
| "matchElems (Ident # es) cap s =
     (case s of
        [] \<Rightarrow> None
      | c # s' \<Rightarrow>
          if identStart c
          then matchElems es (c # takeWhile identChar s') (dropWhile identChar s')
          else None)"

definition call :: "string \<Rightarrow> elem list \<Rightarrow> elem list" where
  \<comment> \<open>\<open>name\\s*\\(\\s*\<close> ... \<open>\\s*\\)\<close> around an argument\<close>
  "call name arg = [Lit name, Spaces, Lit ''('', Spaces] @ arg @ [Spaces, Lit '')'']"

definition patterns :: "elem list list" where
  "patterns =
     [[Lit ''process.env.'', Ident],
      call ''os.Getenv'' [Lit [dquote], Ident, Lit [dquote]],
      [Lit ''os.environ'', Spaces, Lit ''['', Spaces, Quote, Ident, Quote, Spaces, Lit '']''],
      [Lit ''os.getenv'', Spaces, Lit ''('', Spaces, Quote, Ident, Quote],
      call ''System.getenv'' [Lit [dquote], Ident, Lit [dquote]],
      call ''Environment.GetEnvironmentVariable'' [Lit [dquote], Ident, Lit [dquote]],
      call ''env::var'' [Lit [dquote], Ident, Lit [dquote]]]"

definition extensions :: "string list" where
  "extensions = [''.go'', ''.js'', ''.ts'', ''.jsx'', ''.tsx'', ''.py'', ''.java'', ''.cs'', ''.rs'']"

definition Ext :: "string \<Rightarrow> string" where
  \<comment> \<open>\<open>filepath.Ext\<close> on a file name: from its last dot on, empty without a dot\<close>
  "Ext name =
     (if CHR ''.'' \<in> set name
      then CHR ''.'' # rev (takeWhile (\<lambda>c. c \<noteq> CHR ''.'') (rev name))
      else [])"

text \<open>
  The tree that \<open>filepath.Walk(basePath, ...)\<close> visits, rooted at \<open>basePath\<close>: a file with
  its name and its content (\<open>None\<close> when \<open>os.ReadFile\<close> fails), or a directory with its
  name and its entries in the order of the walk (none when the directory cannot be
  listed).  An entry that cannot be examined, and a file that cannot be read, make the
  callback return \<open>nil\<close>; they contribute nothing, like a file with content \<open>None\<close>.
\<close>

datatype fsnode = FileNode string "string option" | DirNode string "fsnode list"

definition skippedDir :: "string \<Rightarrow> bool" where
  "skippedDir name =
     (name = ''node_modules'' \<or> name = ''vendor'' \<or> name = ''.git'' \<or>
      name = ''__pycache__'' \<or> name = ''target'' \<or> name = ''bin'' \<or> name = ''obj'')"

fun nodeName :: "fsnode \<Rightarrow> string" where
  "nodeName (FileNode name _) = name"
| "nodeName (DirNode name _) = name"

definition relChild :: "string \<Rightarrow> string \<Rightarrow> string" where
  \<comment> \<open>\<open>filepath.Rel(basePath, path)\<close> of an entry, from that of its directory\<close>
  "relChild rel name = (if rel = ''.'' then name else rel @ ''/'' @ name)"

fun sourceFiles :: "string \<Rightarrow> fsnode \<Rightarrow> (string \<times> string) list" where
  \<comment> \<open>the files whose lines the callback scans, in the order of the walk: relative
      path and content\<close>
  "sourceFiles rel (FileNode name content) =
     (if Ext name \<notin> set extensions then []
      else (case content of None \<Rightarrow> [] | Some c \<Rightarrow> [(rel, c)]))"
| "sourceFiles rel (DirNode name entries) =
     (if skippedDir name then []
      else concat (map (\<lambda>e. sourceFiles (relChild rel (nodeName e)) e) entries))"

definition src001Title :: "string \<Rightarrow> string" where
  "src001Title varName =
     ''Environment variable '' @ [squote] @ varName @ [squote] @
     '' used in source but not defined''"

definition src001Finding :: "string \<Rightarrow> string \<Rightarrow> int \<Rightarrow> Finding" where
  "src001Finding varName relPath lineNo =
     WithFix
       (WithFile
          (WithDetails
             (NewFinding ''SRC001'' SeverityWarning (src001Title varName))
             (''Variable '' @ varName @
              '' is accessed in source code but not found in any .env file''))
          relPath lineNo)
       (''Add '' @ varName @ ''=<value> to .env file'')"

text \<open>
  The state of the walk is \<open>foundUndefined\<close> (the names reported so far) and the findings.
  \<open>lineNum\<close> counts the lines of \<open>strings.Split(content, "\\n")\<close> from 0.
\<close>

definition scanSource ::
  "string list \<Rightarrow> string list \<times> Finding list \<Rightarrow> string \<times> string
     \<Rightarrow> string list \<times> Finding list" where
  "scanSource definedVars state file =
     (case file of (relPath, content) \<Rightarrow>
        foldl (\<lambda>state (lineNum, line).
                 foldl (\<lambda>state pattern.
                          foldl (\<lambda>(foundUndefined, findings) varName.
                                   if varName \<notin> set definedVars \<and> \<not> isStandardVar varName \<and>
                                      varName \<notin> set foundUndefined
                                   then (varName # foundUndefined,
                                         findings @ [src001Finding varName relPath (lineNum + 1)])
                                   else (foundUndefined, findings))
                                state (findAll (matchElems pattern []) line))
                       state patterns)
              state (numberedFrom (- 1) (Split content newline)))"

definition checkSourceCodeEnvRefs :: "fsnode \<Rightarrow> files \<Rightarrow> Artifacts \<Rightarrow> Finding list" where
  "checkSourceCodeEnvRefs tree files artifacts =
     snd (foldl (scanSource (collectDefined files artifacts)) ([], [])
                (sourceFiles ''.'' tree))"

subsection \<open>The source scanner as the specification words it\<close>

definition extracted :: "fsnode \<Rightarrow> (string \<times> string \<times> int) list" where
  \<comment> \<open>every name that the patterns extract from the scanned files, in the order of the
      scan, with the file and the line of the occurrence\<close>
  "extracted tree =
     concat (map (\<lambda>(relPath, content).
               concat (map (\<lambda>(n, line).
                         concat (map (\<lambda>pattern.
                                   map (\<lambda>varName. (varName, relPath, n))
                                       (findAll (matchElems pattern []) line))
                                 patterns))
                       (numbered (Split content newline))))
             (sourceFiles ''.'' tree))"

fun firstOccurrences :: "string list \<Rightarrow> (string \<times> 'a) list \<Rightarrow> (string \<times> 'a) list" where
  \<comment> \<open>the first occurrence of each name that is not among those seen already\<close>
  "firstOccurrences seen [] = []"
| "firstOccurrences seen (x # xs) =
     (if fst x \<in> set seen then firstOccurrences seen xs
      else x # firstOccurrences (fst x # seen) xs)"

definition undefinedRefs :: "files \<Rightarrow> Artifacts \<Rightarrow> fsnode \<Rightarrow> (string \<times> string \<times> int) list" where
  \<comment> \<open>the extracted names that are neither defined nor standard\<close>
  "undefinedRefs files artifacts tree =
     filter (\<lambda>(varName, _). varName \<notin> set (collectDefined files artifacts) \<and>
                             \<not> isStandardVar varName)
            (extracted tree)"

definition itemStep ::
  "string list \<Rightarrow> string list \<times> Finding list \<Rightarrow> string \<times> string \<times> int
     \<Rightarrow> string list \<times> Finding list" where
  \<comment> \<open>the innermost loop body, on an extracted name with its file and line\<close>
  "itemStep defined state item =
     (case state of (foundUndefined, findings) \<Rightarrow>
      case item of (varName, relPath, n) \<Rightarrow>
        if varName \<notin> set defined \<and> \<not> isStandardVar varName \<and> varName \<notin> set foundUndefined
        then (varName # foundUndefined, findings @ [src001Finding varName relPath n])
        else (foundUndefined, findings))"

definition sourceFindings :: "bool \<Rightarrow> fsnode \<Rightarrow> files \<Rightarrow> Artifacts \<Rightarrow> Finding list" where
  \<comment> \<open>the step of \<open>CheckWithOptions\<close>: the scan runs only if \<open>opts.EnableSourceScanning\<close>\<close>
  "sourceFindings enableSourceScanning tree files artifacts =
     (if enableSourceScanning then checkSourceCodeEnvRefs tree files artifacts else [])"

definition sourceTree :: fsnode where
  \<comment> \<open>\<open>main.go\<close> reads \<open>PORT\<close>, \<open>HOME\<close> and \<open>A\<close>; \<open>web/app.js\<close> reads \<open>PORT\<close> again and
      \<open>API_KEY\<close> twice; \<open>node_modules\<close> is skipped and \<open>notes.txt\<close> has no supported
      extension\<close>
  "sourceTree =
     DirNode ''project''
       [FileNode ''main.go''
          (Some (''p := os.Getenv('' @ [dquote] @ ''PORT'' @ [dquote] @ '')'' @ [newline] @
                 ''h := os.Getenv( '' @ [dquote] @ ''HOME'' @ [dquote] @ '' ) + os.Getenv('' @
                 [dquote] @ ''A'' @ [dquote] @ '')'' @ [newline])),
        DirNode ''node_modules'' [FileNode ''dep.js'' (Some ''process.env.SECRET'')],
        FileNode ''notes.txt'' (Some ''process.env.NOTE''),
        DirNode ''web''
          [FileNode ''app.js''
             (Some (''const k = process.env.API_KEY || process.env.PORT'' @ [newline] @
                    ''use(process.env.API_KEY)''))]]"

section \<open>The other checks and the whole scan (internal/checker, internal/tools, cmd)\<close>

subsection \<open>Build contexts\<close>

text \<open>
  The \<open>build\<close> value of a service as \<open>yaml.Unmarshal\<close> decodes it into \<open>interface{}\<close>:
  absent, a string, a mapping (with its \<open>context\<close> and \<open>dockerfile\<close> when these are
  strings), or something else.  The decoder is a parameter, as are \<open>filepath.Join\<close> and
  the test \<open>os.IsNotExist\<close> on \<open>os.Stat\<close> of a path joined to \<open>basePath\<close>.
\<close>

datatype buildValue =
  BuildNil | BuildString string | BuildMap "string option" "string option" | BuildOther

type_synonym unmarshalBuild = "string \<Rightarrow> (string \<times> buildValue) list option"

definition build001Finding :: "(string list \<Rightarrow> string) \<Rightarrow> string \<Rightarrow> string \<Rightarrow> string \<Rightarrow> string \<Rightarrow> Finding" where
  "build001Finding joinPath svcName context dockerfile path =
     WithFix
       (WithFile
          (WithDetails
             (NewFinding ''BUILD001'' SeverityBlocking (''Dockerfile not found for service '' @ svcName))
             (''Service '' @ svcName @ '' expects '' @ dockerfile @ '' at '' @
              joinPath [context, dockerfile] @ '' but it doesn'' @ [squote] @ ''t exist''))
          path 0)
       (''Create '' @ dockerfile @ '' in '' @ context @ '' or update build.context'')"

definition build002Finding :: "string \<Rightarrow> string \<Rightarrow> string \<Rightarrow> Finding" where
  "build002Finding svcName context path =
     WithFix
       (WithFile
          (WithDetails
             (NewFinding ''BUILD002'' SeverityBlocking
                (''Build context directory not found for service '' @ svcName))
             (''Service '' @ svcName @ '' references build context '' @ context @
              '' which doesn'' @ [squote] @ ''t exist''))
          path 0)
       (''Create directory '' @ context @ '' or update build.context'')"

definition buildOf :: "buildValue \<Rightarrow> string \<times> string" where
  \<comment> \<open>the type switch: the context and the dockerfile, \<open>Dockerfile\<close> by default\<close>
  "buildOf build =
     (case build of
        BuildString s \<Rightarrow> (s, ''Dockerfile'')
      | BuildMap c df \<Rightarrow>
          (case c of None \<Rightarrow> [] | Some c' \<Rightarrow> c',
           case df of None \<Rightarrow> ''Dockerfile'' | Some df' \<Rightarrow> df')
      | _ \<Rightarrow> ([], ''Dockerfile''))"

definition checkBuildContexts ::
  "unmarshalBuild \<Rightarrow> (string list \<Rightarrow> string) \<Rightarrow> (string list \<Rightarrow> bool) \<Rightarrow> files \<Rightarrow> Artifacts
     \<Rightarrow> Finding list" where
  "checkBuildContexts unmarshal joinPath notExist files artifacts =
     foldl (\<lambda>findings composeFile.
              if \<not> Found composeFile then findings
              else (case files (Path composeFile) of
                      None \<Rightarrow> findings
                    | Some content \<Rightarrow>
                        (case unmarshal content of
                           None \<Rightarrow> findings
                         | Some services \<Rightarrow>
                             foldl (\<lambda>findings (svcName, build).
                                      if build = BuildNil then findings
                                      else
                                        (case buildOf build of (context, dockerfile) \<Rightarrow>
                                           if context = [] then findings
                                           else
                                             (let findings1 =
                                                    (if notExist [context, dockerfile]
                                                     then findings @
                                                          [build001Finding joinPath svcName context
                                                             dockerfile (Path composeFile)]
                                                     else findings)
                                              in if notExist [context]
                                                 then findings1 @
                                                      [build002Finding svcName context
                                                         (Path composeFile)]
                                                 else findings1)))
                                   findings services)))
           [] (ComposeFiles artifacts)"

subsection \<open>Language and README hints\<close>

definition addLanguageInfo :: "Artifacts \<Rightarrow> Finding list" where
  "addLanguageInfo artifacts =
     (if DetectedLang artifacts \<noteq> []
      then [NewFinding ''LANG001'' SeverityInfo
              (''Detected '' @ DetectedLang artifacts @ '' project'' @
               (if PackageManager artifacts \<noteq> [] then '' with '' @ PackageManager artifacts
                else []))]
      else [])"

definition Contains :: "string \<Rightarrow> string \<Rightarrow> bool" where
  "Contains s substr = list_ex (\<lambda>i. HasPrefix (drop i s) substr) [0..<length s + 1]"

definition hintPatterns :: "string list" where
  "hintPatterns =
     [''docker compose up'', ''docker-compose up'', ''pnpm install'', ''pnpm dev'',
      ''npm install'', ''npm run dev'', ''yarn install'', ''yarn dev'', ''go run'', ''make run'',
      ''make dev'']"

text \<open>\<open>strings.ToLower\<close> is a parameter.\<close>

definition checkReadmeHints :: "(string \<Rightarrow> string) \<Rightarrow> files \<Rightarrow> Artifacts \<Rightarrow> Finding list" where
  "checkReadmeHints toLower files artifacts =
     (case Readme artifacts of
        None \<Rightarrow> []
      | Some readme \<Rightarrow>
          if \<not> Found readme then []
          else (case files (Path readme) of
                  None \<Rightarrow> []
                | Some content \<Rightarrow>
                    (case find (\<lambda>p. Contains (toLower content) p) hintPatterns of
                       None \<Rightarrow> []
                     | Some hint \<Rightarrow>
                         [NewFinding ''HINT001'' SeverityInfo
                            (''Likely entrypoint: '' @ hint @ '' (from README)'')])))"

subsection \<open>Tool versions\<close>

text \<open>
  \<open>tools.DetectTools\<close>, which runs the tools, is a parameter: for a tool name, whether it
  is available and the version it reports.  So is the order in which \<open>CheckVersions\<close>
  ranges over the requirements.  \<open>VersionCheck.Required\<close> is \<open>MinVersion\<close> here.
\<close>

record VersionCheck =
  Tool :: string
  Current :: string
  MinVersion :: string
  Satisfied :: bool
  Available :: bool

type_synonym detectTools = "string \<Rightarrow> (bool \<times> string) option"

definition CheckVersions ::
  "((string \<times> string) list \<Rightarrow> (string \<times> string) list) \<Rightarrow> detectTools \<Rightarrow> (string \<times> string) list
     \<Rightarrow> VersionCheck list" where
  "CheckVersions rangeMap tools requirements =
     foldl (\<lambda>results (tool, minVersion).
              if minVersion = [] then results
              else
                (case tools tool of
                   Some (True, version) \<Rightarrow>
                     results @
                     [\<lparr>Tool = tool, Current = version, MinVersion = minVersion,
                       Satisfied = (CompareVersions version minVersion \<ge> 0), Available = True\<rparr>]
                 | _ \<Rightarrow>
                     results @
                     [\<lparr>Tool = tool, Current = [], MinVersion = minVersion, Satisfied = False,
                       Available = False\<rparr>]))
           [] (rangeMap requirements)"

definition requirementsOf :: "ToolVersions \<Rightarrow> (string \<times> string) list" where
  "requirementsOf versions =
     filter (\<lambda>(tool, v). v \<noteq> [])
       [(''docker'', Docker versions), (''docker-compose'', DockerCompose versions),
        (''go'', Go versions), (''node'', Node versions), (''python'', Python versions)]"

definition tool001Finding :: "VersionCheck \<Rightarrow> Finding" where
  "tool001Finding check =
     WithFix
       (WithDetails
          (NewFinding ''TOOL001'' SeverityBlocking
             (''Required tool '' @ [squote] @ Tool check @ [squote] @ '' not found''))
          (''Tool '' @ Tool check @ '' is required but not installed or not in PATH''))
       (''Install '' @ Tool check @ '' version '' @ MinVersion check @ '' or higher'')"

definition tool002Finding :: "VersionCheck \<Rightarrow> Finding" where
  "tool002Finding check =
     WithFix
       (WithDetails
          (NewFinding ''TOOL002'' SeverityWarning
             (''Tool '' @ [squote] @ Tool check @ [squote] @ '' version too old: '' @
              Current check @ '' < '' @ MinVersion check))
          (''Tool '' @ Tool check @ '' version '' @ Current check @
           '' is installed but minimum '' @ MinVersion check @ '' is required''))
       (''Upgrade '' @ Tool check @ '' to version '' @ MinVersion check @ '' or higher'')"

definition checkToolVersions ::
  "((string \<times> string) list \<Rightarrow> (string \<times> string) list) \<Rightarrow> detectTools \<Rightarrow> ToolVersions
     \<Rightarrow> Finding list" where
  "checkToolVersions rangeMap tools versions =
     foldl (\<lambda>findings check.
              if \<not> Available check then findings @ [tool001Finding check]
              else if \<not> Satisfied check then findings @ [tool002Finding check]
              else findings)
           [] (CheckVersions rangeMap tools (requirementsOf versions))"

subsection \<open>Required variables\<close>

definition req001Finding :: "string \<Rightarrow> Finding" where
  "req001Finding required =
     WithFix
       (WithDetails
          (NewFinding ''REQ001'' SeverityBlocking
             (''Required variable '' @ [squote] @ required @ [squote] @ '' not defined''))
          (''Variable '' @ required @
           '' is configured as required in .devcheck.yaml but is not defined''))
       (''Add '' @ required @ ''=<value> to .env file'')"

definition checkRequiredEnvVars :: "files \<Rightarrow> Artifacts \<Rightarrow> Config \<Rightarrow> Finding list" where
  "checkRequiredEnvVars files artifacts cfg =
     (if length (RequiredEnvVars cfg) = 0 then []
      else
        (let definedVars = collectDefined files artifacts
         in foldl (\<lambda>findings required.
                     if required \<notin> set definedVars then findings @ [req001Finding required]
                     else findings)
                  [] (RequiredEnvVars cfg)))"

subsection \<open>All checks, and the scan\<close>

text \<open>
  Everything outside the checks that they consult: the files, the source tree, the YAML
  decoder, the regular expressions, the tools, and the orders of Go's map iteration.
\<close>

record world =
  readFiles :: files
  sourceRoot :: fsnode
  yamlServices :: unmarshal
  yamlBuilds :: unmarshalBuild
  joinPath :: "string list \<Rightarrow> string"
  notExist :: "string list \<Rightarrow> bool"
  toLower :: "string \<Rightarrow> string"
  reCompile :: regexpCompile
  probeTools :: detectTools
  rangeKeys :: "(string \<times> string) list \<Rightarrow> string list"
  rangeTools :: "(string \<times> string) list \<Rightarrow> (string \<times> string) list"

definition rawFindings :: "world \<Rightarrow> Artifacts \<Rightarrow> bool \<Rightarrow> Config option \<Rightarrow> bool \<Rightarrow> Finding list" where
  \<comment> \<open>the findings of \<open>CheckWithOptions\<close> before the ignore-code filter; the three options
      are \<open>EnableSourceScanning\<close>, \<open>Config\<close> and \<open>CheckToolVersions\<close>\<close>
  "rawFindings w artifacts enableSourceScanning config checkTools =
     checkComposeEnvRefs (readFiles w) artifacts @
     checkEnvExample (rangeKeys w) (readFiles w) artifacts @
     checkComposeDependsOn (yamlServices w) (readFiles w) artifacts @
     checkBuildContexts (yamlBuilds w) (joinPath w) (notExist w) (readFiles w) artifacts @
     addLanguageInfo artifacts @
     checkReadmeHints (toLower w) (readFiles w) artifacts @
     sourceFindings enableSourceScanning (sourceRoot w) (readFiles w) artifacts @
     (case config of
        None \<Rightarrow> []
      | Some cfg \<Rightarrow>
          (if checkTools
           then (case ToolVersions cfg of
                   None \<Rightarrow> []
                 | Some versions \<Rightarrow> checkToolVersions (rangeTools w) (probeTools w) versions)
           else []) @
          checkCustomRules (reCompile w) (readFiles w) artifacts cfg @
          checkRequiredEnvVars (readFiles w) artifacts cfg)"

definition CheckWithOptions :: "world \<Rightarrow> Artifacts \<Rightarrow> bool \<Rightarrow> Config option \<Rightarrow> bool \<Rightarrow> Finding list" where
  "CheckWithOptions w artifacts enableSourceScanning config checkTools =
     (let findings = rawFindings w artifacts enableSourceScanning config checkTools
      in case config of
           None \<Rightarrow> findings
         | Some cfg \<Rightarrow> filterIgnoredFindings findings cfg)"

definition runScan :: "world \<Rightarrow> Artifacts \<Rightarrow> Config \<Rightarrow> Profile \<Rightarrow> bool \<Rightarrow> Finding list" where
  \<comment> \<open>the findings of the report: the configuration is never \<open>nil\<close> in \<open>runScan\<close>\<close>
  "runScan w artifacts cfg profile checkTools =
     FilterFindings profile
       (CheckWithOptions w artifacts (EnableSourceScanning profile) (Some cfg) checkTools)"

definition exempt :: "string \<Rightarrow> Finding \<Rightarrow> bool" where
  \<comment> \<open>the finding is neither the \<open>ENV001\<close> nor the \<open>SRC001\<close> finding of the name\<close>
  "exempt n f = (\<not> (Code f = ''ENV001'' \<and> Title f = env001Title n) \<and>
                 \<not> (Code f = ''SRC001'' \<and> Title f = src001Title n))"

definition defaultProfile :: Profile where
  \<comment> \<open>the entry \<open>default\<close> of \<open>BuiltinProfiles\<close>\<close>
  "defaultProfile =
     \<lparr>Name = ''default'', MinSeverity = SeverityInfo, EnabledChecks = [], DisabledChecks = [],
      EnableSourceScanning = False, IncludeInfo = True\<rparr>"

definition dbProject :: files where
  \<comment> \<open>a project whose only file is a manifest that refers to \<open>${DATABASE_URL}\<close>\<close>
  "dbProject p =
     (if p = ''compose.yaml''
      then Some (''services:'' @ [newline] @ ''  web:'' @ [newline] @
                 ''    environment:'' @ [newline] @
                 ''      - DATABASE_URL=${DATABASE_URL}'' @ [newline])
      else None)"

definition dbArtifacts :: Artifacts where
  \<comment> \<open>what the locator finds there: the manifest, no environment file, no example\<close>
  "dbArtifacts =
     NewArtifacts\<lparr>ComposeFiles := [artifact ''compose'' ''compose.yaml'' True],
                  EnvFiles := envCandidates False False\<rparr>"

definition dbWorld :: world where
  \<comment> \<open>the surroundings of that project: the service \<open>web\<close> has neither \<open>depends_on\<close> nor
      \<open>build\<close>, no tool is installed, every pattern compiles and matches nothing\<close>
  "dbWorld =
     \<lparr>readFiles = dbProject,
      sourceRoot = DirNode ''project'' [FileNode ''compose.yaml'' (dbProject ''compose.yaml'')],
      yamlServices = (\<lambda>content. Some [(''web'', YamlNode NoKind [] [])]),
      yamlBuilds = (\<lambda>content. Some [(''web'', BuildNil)]),
      joinPath = concat,
      notExist = (\<lambda>path. True),
      toLower = (\<lambda>s. s),
      reCompile = (\<lambda>pattern. Some (\<lambda>name. False)),
      probeTools = (\<lambda>tool. None),
      rangeKeys = listOrder,
      rangeTools = (\<lambda>m. m)\<rparr>"

section \<open>Version comparison: proofs\<close>

lemma isDigit_byte: "isDigit c \<Longrightarrow> 0 \<le> byte c - 48 \<and> byte c - 48 \<le> 9"
  by (simp add: isDigit_def)

lemma decimalFrom_ge: "list_all isDigit s \<Longrightarrow> 0 \<le> n \<Longrightarrow> n \<le> decimalFrom n s"
proof (induction s arbitrary: n)
  case Nil then show ?case by (simp add: decimalFrom_def)
next
  case (Cons c cs)
  have d: "0 \<le> byte c - 48" using Cons.prems isDigit_byte by simp
  have "n * 10 + (byte c - 48) \<le> decimalFrom (n * 10 + (byte c - 48)) cs"
    using Cons.IH[of "n * 10 + (byte c - 48)"] Cons.prems d by simp
  then show ?case using d Cons.prems by (simp add: decimalFrom_def)
qed

lemma decimalFrom_Cons: "decimalFrom n (c # cs) = decimalFrom (n * 10 + (byte c - 48)) cs"
  by (simp add: decimalFrom_def)

lemma list_all_takeWhile: "list_all P (takeWhile P xs)"
  by (induction xs) auto

lemma takeWhile_list_all: "list_all P xs \<Longrightarrow> takeWhile P xs = xs"
  by (induction xs) auto

lemma ParseUint_char:
  "0 \<le> n \<Longrightarrow> n \<le> maxUint64 \<Longrightarrow> ParseUint n s =
     (if decimalFrom n (takeWhile isDigit s) > maxUint64 then Inr (maxUint64, True)
      else if list_all isDigit s then Inr (decimalFrom n s, False)
      else Inl ())"
proof (induction s arbitrary: n)
  case Nil
  then show ?case by (simp add: decimalFrom_def)
next
  case (Cons c cs)
  show ?case
  proof (cases "isDigit c")
    case False
    then show ?thesis using Cons.prems by (simp add: decimalFrom_def)
  next
    case True
    let ?m = "n * 10 + (byte c - 48)"
    have m0: "0 \<le> ?m" using True Cons.prems isDigit_byte by simp
    show ?thesis
    proof (cases "?m > maxUint64")
      case over: True
      have "?m \<le> decimalFrom ?m (takeWhile isDigit cs)"
        using decimalFrom_ge[OF list_all_takeWhile m0] .
      then show ?thesis using True over by (simp add: decimalFrom_Cons)
    next
      case False
      then show ?thesis using True Cons.IH[OF m0] by (simp add: decimalFrom_Cons)
    qed
  qed
qed

lemma TrimFunc_hd:
  assumes "TrimFunc p f \<noteq> []" shows "\<not> f (hd (TrimFunc p f))"
proof -
  let ?ys = "dropWhile f p"
  have "?ys = [] \<Longrightarrow> TrimFunc p f = []"
    by (metis TrimFunc_def dropWhile.simps(1) rev.simps(1))
  with assms have ne: "?ys \<noteq> []" by blast
  then obtain y ys' where ys: "?ys = y # ys'" by (cases ?ys) auto
  have ny: "\<not> f y" using ys hd_dropWhile[of f p] ne by (metis list.sel(1))
  have "dropWhile f (rev ys' @ [y]) = dropWhile f (rev ys') @ [y] \<or> dropWhile f (rev ys' @ [y]) = [y]"
    using ny by (simp add: dropWhile_append)
  then have "hd (rev (dropWhile f (rev ?ys))) = y"
    unfolding ys by auto
  then show ?thesis using ny by (simp add: TrimFunc_def)
qed

lemma Atoi_trimmed: "Atoi (TrimFunc p (\<lambda>r. \<not> isDigit r)) = segmentValue p"
proof -
  let ?t = "TrimFunc p (\<lambda>r. \<not> isDigit r)"
  show ?thesis
  proof (cases "?t = []")
    case True
    then show ?thesis by (simp add: Atoi_def ParseInt_def segmentValue_def decimal_def decimalFrom_def maxInt64_def)
  next
    case False
    then have d: "isDigit (hd ?t)" using TrimFunc_hd[of p "\<lambda>r. \<not> isDigit r"] by simp
    have "hd ?t \<noteq> CHR ''-''" "hd ?t \<noteq> CHR ''+''"
      using d by (auto simp: isDigit_def byte_def)
    then have "Atoi ?t = (case ParseUint 0 ?t of Inl _ \<Rightarrow> 0
                 | Inr (un, _) \<Rightarrow> if un \<ge> 9223372036854775808 then maxInt64 else un)"
      using False by (simp add: Atoi_def ParseInt_def Let_def split: sum.splits prod.splits)
    then show ?thesis
      by (auto simp: ParseUint_char segmentValue_def Let_def decimal_def maxInt64_def maxUint64_def
            takeWhile_list_all)
  qed
qed

lemma Split_ne: "Split s sep \<noteq> []"
  by (induction s) (auto split: list.splits)

lemma TrimFunc_Cons: "f c \<Longrightarrow> TrimFunc (c # p) f = TrimFunc p f"
  by (simp add: TrimFunc_def)

lemma parseVersion_eq: "parseVersion v = map segmentValue (Split v (CHR ''.''))"
proof (cases "HasPrefix v ''v''")
  case False
  then show ?thesis by (simp add: parseVersion_def TrimPrefix_def Atoi_trimmed)
next
  case True
  then obtain v' where v: "v = CHR ''v'' # v'" by (cases v) (auto simp: HasPrefix_def)
  obtain p ps where sp: "Split v' (CHR ''.'') = p # ps" using Split_ne by (cases "Split v' (CHR ''.'')") auto
  have nd: "\<not> isDigit (CHR ''v'')" by (simp add: isDigit_def byte_def)
  have "segmentValue (CHR ''v'' # p) = segmentValue p"
    using nd by (simp add: segmentValue_def TrimFunc_Cons)
  then show ?thesis
    by (simp add: parseVersion_def TrimPrefix_def HasPrefix_def v sp Atoi_trimmed)
qed

lemma pad3_nth: "pad3 xs = map (\<lambda>i. if i < length xs then xs ! i else 0) [0, 1, 2]"
proof (cases xs)
  case Nil then show ?thesis by (simp add: pad3_def)
next
  case (Cons a as)
  note c1 = this
  show ?thesis
  proof (cases as)
    case Nil then show ?thesis using c1 by (simp add: pad3_def)
  next
    case (Cons b bs)
    then show ?thesis using c1 by (cases bs) (simp_all add: pad3_def)
  qed
qed

lemma compareLoop_firstDiff: "compareLoop 0 a b = firstDiff (pad3 a) (pad3 b)"
proof -
  define g where "g = (\<lambda>(xs::int list) i. if i < length xs then xs ! i else 0)"
  have step: "compareLoop i a b =
      (if i < 3 then (if g a i < g b i then - 1 else if g a i > g b i then 1
                      else compareLoop (Suc i) a b) else 0)" for i
    by (subst compareLoop.simps) (simp add: g_def Let_def)
  have l3: "compareLoop (Suc (Suc (Suc 0))) a b = 0" by (subst step) simp
  have l2: "compareLoop (Suc (Suc 0)) a b = firstDiff [g a (Suc (Suc 0))] [g b (Suc (Suc 0))]"
    by (subst step) (simp add: l3)
  have l1: "compareLoop (Suc 0) a b =
      firstDiff [g a (Suc 0), g a (Suc (Suc 0))] [g b (Suc 0), g b (Suc (Suc 0))]"
    by (subst step) (simp add: l2)
  have l0: "compareLoop 0 a b =
      firstDiff [g a 0, g a (Suc 0), g a (Suc (Suc 0))] [g b 0, g b (Suc 0), g b (Suc (Suc 0))]"
    by (subst step) (simp add: l1)
  have "pad3 xs = [g xs 0, g xs (Suc 0), g xs (Suc (Suc 0))]" for xs
    by (simp add: pad3_nth g_def numeral_2_eq_2)
  then show ?thesis using l0 by simp
qed

text \<open>
  Claim C2, as the specification states it, fails on the code: \<open>parseVersion\<close> trims
  non-digit characters at the two ends of a segment only (\<open>strings.TrimFunc\<close>), so a
  segment with a non-digit inside is a syntax error of \<open>strconv.Atoi\<close> and counts as 0,
  where stripping every non-digit would read a number; and \<open>Atoi\<close> saturates at
  \<open>2^63 - 1\<close>, so two different segments beyond that value compare equal.
\<close>

theorem C2_counterexample:
  "CompareVersions ''1.2b3'' ''1.5'' = - 1 \<and> spec_CompareVersions ''1.2b3'' ''1.5'' = 1 \<and>
   CompareVersions ''9223372036854775808'' ''9223372036854775807'' = 0 \<and>
   spec_CompareVersions ''9223372036854775808'' ''9223372036854775807'' = 1"
  by code_simp

text \<open>
  Claim C2, amended: for every pair of version strings, \<open>CompareVersions\<close> compares the
  first three dot-separated segments left to right, an absent segment being 0, and returns
  the sign of the first difference, 0 if there is none; a segment is read by trimming the
  non-digit characters at its two ends and taking the decimal value of the rest capped at
  \<open>2^63 - 1\<close> when it is all digits, \<open>2^63 - 1\<close> when its leading digits already exceed
  \<open>2^64 - 1\<close>, and 0 otherwise (empty, or a non-digit inside).  The three examples of the
  specification hold.
\<close>

theorem C2_CompareVersions_amended:
  "CompareVersions v1 v2 = amended_CompareVersions v1 v2 \<and>
   CompareVersions ''20.10.0'' ''20.9.9'' > 0 \<and>
   CompareVersions ''18.0.0'' ''18.0.0'' = 0 \<and>
   CompareVersions ''1.2'' ''1.2.0'' = 0"
proof -
  have "CompareVersions v1 v2 = amended_CompareVersions v1 v2"
    by (simp add: CompareVersions_def amended_CompareVersions_def parseVersion_eq
        compareLoop_firstDiff)
  moreover have "CompareVersions ''20.10.0'' ''20.9.9'' = 1" by code_simp
  moreover have "CompareVersions ''18.0.0'' ''18.0.0'' = 0" by code_simp
  moreover have "CompareVersions ''1.2'' ''1.2.0'' = 0" by code_simp
  ultimately show ?thesis by simp
qed

section \<open>Shared facts about loops and lines\<close>

lemma foldl_snoc_if:
  "foldl (\<lambda>acc x. if P x then acc @ [g x] else acc) acc xs = acc @ map g (filter P xs)"
  by (induction xs arbitrary: acc) simp_all

lemma foldl_snoc_concat:
  "foldl (\<lambda>acc x. acc @ h x) acc xs = acc @ concat (map h xs)"
  by (induction xs arbitrary: acc) simp_all

lemma Split_append: "sep \<notin> set xs \<Longrightarrow> Split (xs @ sep # ys) sep = xs # Split ys sep"
  by (induction xs) (auto split: list.splits)

section \<open>Environment files: proofs\<close>

lemma parseLine_spec: "parseLine text = spec_line (\<lambda>v. Trim v [dquote, squote]) text"
  by (auto simp: parseLine_def spec_line_def SplitN2_def HasPrefix_def Let_def neq_Nil_conv)

lemma spaceRunes_CR: "p \<in> set spaceRunes \<Longrightarrow> p = [CHR 0x0D] \<or> (p \<noteq> [] \<and> CHR 0x0D \<notin> set p)"
  by (auto simp: spaceRunes_def)

lemma HasPrefix_snoc_notin:
  assumes "c \<notin> set p" "p \<noteq> []"
  shows "HasPrefix (s @ [c]) p = HasPrefix s p"
proof (cases "length p \<le> length s")
  case True
  then show ?thesis by (simp add: HasPrefix_def)
next
  case False
  then have "length (take (length p) s) \<noteq> length p" by simp
  then have "take (length p) s \<noteq> p" by metis
  moreover have "take (length p) (s @ [c]) \<noteq> p"
  proof
    assume "take (length p) (s @ [c]) = p"
    moreover have "take (length p) (s @ [c]) = s @ [c]" using False by simp
    ultimately show False using assms by auto
  qed
  ultimately show ?thesis by (simp add: HasPrefix_def)
qed

lemma HasPrefix_snoc_CR:
  assumes "s \<noteq> []" "p \<in> set spaceRunes"
  shows "HasPrefix (s @ [CHR 0x0D]) p = HasPrefix s p"
proof -
  from spaceRunes_CR[OF assms(2)] show ?thesis
  proof
    assume "p = [CHR 0x0D]"
    then show ?thesis using assms(1) by (cases s) (simp_all add: HasPrefix_def)
  next
    assume "p \<noteq> [] \<and> CHR 0x0D \<notin> set p"
    then show ?thesis using HasPrefix_snoc_notin by blast
  qed
qed

lemma dropPrefixes_Nil: "dropPrefixes ps [] = []"
  by (subst dropPrefixes.simps) (auto simp: HasPrefix_def find_None_iff split: option.splits
      dest!: find_Some_iff[THEN iffD1])

lemma find_spaceRunes_CR: "find (\<lambda>p. p \<noteq> [] \<and> HasPrefix [CHR 0x0D] p) spaceRunes = Some [CHR 0x0D]"
  by (simp add: spaceRunes_def HasPrefix_def)

lemma dropLeft_snoc_CR:
  "dropPrefixes spaceRunes (s @ [CHR 0x0D]) =
     (if dropPrefixes spaceRunes s = [] then [] else dropPrefixes spaceRunes s @ [CHR 0x0D])"
proof (induction s rule: length_induct)
  case (1 s)
  show ?case
  proof (cases "s = []")
    case True
    have "dropPrefixes spaceRunes [CHR 0x0D] = []"
      by (subst dropPrefixes.simps) (simp add: find_spaceRunes_CR dropPrefixes_Nil)
    then show ?thesis using True by (simp add: dropPrefixes_Nil)
  next
    case False
    have eq: "find (\<lambda>p. p \<noteq> [] \<and> HasPrefix (s @ [CHR 0x0D]) p) spaceRunes
            = find (\<lambda>p. p \<noteq> [] \<and> HasPrefix s p) spaceRunes"
      by (rule find_cong) (auto simp: HasPrefix_snoc_CR[OF False])
    show ?thesis
    proof (cases "find (\<lambda>p. p \<noteq> [] \<and> HasPrefix s p) spaceRunes")
      case None
      then have "dropPrefixes spaceRunes s = s"
        by (subst dropPrefixes.simps) simp
      moreover have "dropPrefixes spaceRunes (s @ [CHR 0x0D]) = s @ [CHR 0x0D]"
        using None eq by (subst dropPrefixes.simps) simp
      ultimately show ?thesis using False by simp
    next
      case (Some p)
      then have p: "p \<noteq> []" "take (length p) s = p"
        by (auto simp: find_Some_iff HasPrefix_def)
      have "length (take (length p) s) \<le> length s" by simp
      then have len: "length p \<le> length s" using p(2) by simp
      have short: "length (drop (length p) s) < length s" using p False by simp
      have "dropPrefixes spaceRunes s = dropPrefixes spaceRunes (drop (length p) s)"
        using Some by (subst dropPrefixes.simps) simp
      moreover have "dropPrefixes spaceRunes (s @ [CHR 0x0D])
          = dropPrefixes spaceRunes (drop (length p) s @ [CHR 0x0D])"
        using Some eq len by (subst dropPrefixes.simps) simp
      ultimately show ?thesis using 1 short by simp
    qed
  qed
qed

lemma dropRight_CR: "dropPrefixes (map rev spaceRunes) (CHR 0x0D # xs) = dropPrefixes (map rev spaceRunes) xs"
  by (subst dropPrefixes.simps) (simp add: spaceRunes_def HasPrefix_def)

lemma TrimSpace_snoc_CR: "TrimSpace (s @ [CHR 0x0D]) = TrimSpace s"
  by (simp add: TrimSpace_def dropLeft_snoc_CR dropRight_CR dropPrefixes_Nil)

lemma TrimSpace_dropCR: "TrimSpace (dropCR l) = TrimSpace l"
proof (cases "l \<noteq> [] \<and> last l = CHR 0x0D")
  case True
  then have "l = butlast l @ [CHR 0x0D]" by (metis append_butlast_last_id)
  then show ?thesis using True TrimSpace_snoc_CR[of "butlast l"] by (simp add: dropCR_def)
next
  case False
  then show ?thesis by (auto simp: dropCR_def)
qed

lemma parseLine_dropCR: "parseLine (dropCR l) = parseLine l"
  by (simp add: parseLine_def TrimSpace_dropCR)

lemma TrimSpace_Nil: "TrimSpace [] = []"
  by (simp add: TrimSpace_def dropPrefixes_Nil)

lemma parseLine_Nil: "parseLine [] = None"
  by (simp add: parseLine_def TrimSpace_Nil)

lemma map_filter_app: "List.map_filter f (xs @ ys) = List.map_filter f xs @ List.map_filter f ys"
  by (induction xs) (simp_all split: option.splits)

lemma map_filter_rawLines:
  "List.map_filter parseLine (rawLines content) = List.map_filter parseLine (Split content newline)"
proof (cases "last (Split content newline) = []")
  case True
  have "Split content newline = butlast (Split content newline) @ [[]]"
    using True Split_ne by (metis append_butlast_last_id)
  then have "List.map_filter parseLine (Split content newline)
      = List.map_filter parseLine (butlast (Split content newline)) @ List.map_filter parseLine [[]]"
    by (metis map_filter_app)
  then show ?thesis using True by (simp add: rawLines_def parseLine_Nil)
next
  case False
  then show ?thesis by (simp add: rawLines_def)
qed

lemma map_filter_map: "List.map_filter f (map g xs) = List.map_filter (f \<circ> g) xs"
  by (induction xs) (auto split: option.splits)

lemma foldl_update_map_of:
  "map_of (foldl (\<lambda>result text. case f text of None \<Rightarrow> result
                               | Some (key, val) \<Rightarrow> AList.update key val result) acc ls)
   = map_of acc ++ map_of (rev (List.map_filter f ls))"
proof (induction ls arbitrary: acc)
  case Nil
  then show ?case by simp
next
  case (Cons l ls)
  show ?case
  proof (cases "f l")
    case None
    then show ?thesis using Cons.IH by simp
  next
    case (Some kv)
    obtain k v where kv: "kv = (k, v)" by (cases kv)
    have "map_of (AList.update k v acc) ++ map_of (rev (List.map_filter f ls))
        = map_of acc ++ map_of (rev (List.map_filter f ls) @ [(k, v)])"
      by (rule ext) (simp add: update_conv' map_add_def split: option.splits)
    then show ?thesis using Some kv Cons.IH by simp
  qed
qed

lemma list_all_butlast: "list_all P xs \<Longrightarrow> list_all P (butlast xs)"
  by (induction xs) auto

lemma scanLines_short:
  assumes "list_all (\<lambda>l. int (length l) < MaxScanTokenSize) (Split content newline)"
  shows "scanLines content = map dropCR (rawLines content)"
proof -
  have "list_all (\<lambda>l. int (length l) < MaxScanTokenSize) (rawLines content)"
    using assms by (simp add: rawLines_def Let_def list_all_butlast)
  then show ?thesis by (simp add: scanLines_def takeWhile_list_all)
qed

text \<open>
  Claim C1, as the specification states it, fails on the code: the value is unquoted with
  \<open>strings.Trim(value, `"'`)\<close>, which removes every leading and trailing quote character
  of either kind.  Doubled quotes are all removed (the reference removes one layer), and a
  quote without its partner is removed too (the reference leaves it).
\<close>

theorem C1_counterexample:
  "map_of (parseEnvFile quotedEnv ''.env'') ''A'' = Some ''v'' \<and>
   spec_parseEnvFile quotedEnv ''.env'' ''A'' = Some [dquote, CHR ''v'', dquote] \<and>
   map_of (parseEnvFile quotedEnv ''.env'') ''B'' = Some ''v'' \<and>
   spec_parseEnvFile quotedEnv ''.env'' ''B'' = Some [dquote, CHR ''v'']"
  by code_simp

text \<open>
  Claim C1, amended: for every file all of whose lines are shorter than 65536 bytes,
  \<open>parseEnvFile\<close> equals the reference definition of the Environment Resolver with the
  unquoting step replaced by the removal of every leading and trailing single or double
  quote character from the trimmed value: it reads line by line, skips lines that are
  empty after trimming and lines starting with \<open>#\<close>, ignores lines without \<open>=\<close>, splits
  on the first \<open>=\<close>, trims key and value, and the last occurrence of a key wins; a missing
  or unreadable file yields the empty map.
\<close>

theorem C1_parseEnvFile_amended:
  "shortLines files path \<Longrightarrow>
   map_of (parseEnvFile files path) = amended_parseEnvFile files path"
proof (cases "files path")
  case None
  then show ?thesis by (simp add: parseEnvFile_def amended_parseEnvFile_def spec_resolve_def)
next
  case (Some content)
  assume "shortLines files path"
  then have sl: "scanLines content = map dropCR (rawLines content)"
    using Some scanLines_short by (simp add: shortLines_def)
  have pl: "parseLine \<circ> dropCR = parseLine" by (rule ext) (simp add: parseLine_dropCR)
  have sp: "spec_line (\<lambda>v. Trim v [dquote, squote]) = parseLine"
    by (rule ext) (simp add: parseLine_spec)
  show ?thesis
    by (simp add: parseEnvFile_def amended_parseEnvFile_def spec_resolve_def Some sl
        foldl_update_map_of map_filter_map pl map_filter_rawLines sp)
qed

text \<open>
  The theorem at a file with a repeated key, a comment, a line without \<open>=\<close>, and a value
  in double and one in single quotes: the last \<open>A\<close> wins and both quoted values are \<open>v\<close>;
  and at a missing file, where the map is empty.
\<close>

theorem C1_parseEnvFile_amended_witness:
  "shortLines sampleEnv ''.env'' \<and>
   map_of (parseEnvFile sampleEnv ''.env'') = amended_parseEnvFile sampleEnv ''.env'' \<and>
   parseEnvFile sampleEnv ''.env'' = [(''A'', ''2''), (''KEY'', ''v''), (''K2'', ''v'')] \<and>
   shortLines sampleEnv ''.env.local'' \<and>
   map_of (parseEnvFile sampleEnv ''.env.local'') = amended_parseEnvFile sampleEnv ''.env.local'' \<and>
   parseEnvFile sampleEnv ''.env.local'' = []"
proof -
  have h: "shortLines sampleEnv ''.env''" by code_simp
  have h': "shortLines sampleEnv ''.env.local''" by code_simp
  have v: "parseEnvFile sampleEnv ''.env'' = [(''A'', ''2''), (''KEY'', ''v''), (''K2'', ''v'')]"
    by code_simp
  have v': "parseEnvFile sampleEnv ''.env.local'' = []" by code_simp
  show ?thesis
    using h h' v v' C1_parseEnvFile_amended [OF h] C1_parseEnvFile_amended [OF h'] by simp
qed

subsection \<open>A line that does not fit the scanner\<close>

lemma longEnv_Split:
  "Split longEnvContent newline = [replicate 65536 (CHR ''#''), ''A=1'']"
proof -
  have "Split longEnvContent newline = replicate 65536 (CHR ''#'') # Split ''A=1'' newline"
    unfolding longEnvContent_def by (rule Split_append) (simp add: newline_def)
  then show ?thesis by (simp add: newline_def)
qed

lemma dropPrefixes_hash:
  "dropPrefixes spaceRunes (CHR ''#'' # s) = CHR ''#'' # s"
  "dropPrefixes (map rev spaceRunes) (CHR ''#'' # s) = CHR ''#'' # s"
  by (subst dropPrefixes.simps, simp add: spaceRunes_def HasPrefix_def)+

lemma TrimSpace_hashes:
  "TrimSpace (CHR ''#'' # replicate n (CHR ''#'')) = CHR ''#'' # replicate n (CHR ''#'')"
proof -
  have r: "rev (CHR ''#'' # replicate n (CHR ''#'')) = CHR ''#'' # replicate n (CHR ''#'')"
    by (simp add: replicate_append_same)
  show ?thesis by (simp only: TrimSpace_def dropPrefixes_hash r)
qed

lemma spec_line_hashes: "spec_line u (replicate 65536 (CHR ''#'')) = None"
proof -
  have "replicate 65536 (CHR ''#'') = CHR ''#'' # replicate 65535 (CHR ''#'')"
    using replicate_Suc[of 65535 "CHR ''#''"] by simp
  then show ?thesis by (simp add: spec_line_def TrimSpace_hashes)
qed

text \<open>
  Why the amended claim keeps to files with short lines: at a line of 65536 bytes the loop
  of \<open>parseEnvFile\<close> ends, and the definitions on the lines after it are lost, where the
  reference reads them.
\<close>

lemma parseEnvFile_long_line:
  "parseEnvFile longEnvProject ''.env'' = [] \<and>
   amended_parseEnvFile longEnvProject ''.env'' ''A'' = Some ''1''"
proof -
  have r: "rawLines longEnvContent = [replicate 65536 (CHR ''#''), ''A=1'']"
    by (simp add: rawLines_def longEnv_Split)
  have s: "scanLines longEnvContent = []"
    by (simp add: scanLines_def r MaxScanTokenSize_def)
  have l: "spec_line (\<lambda>v. Trim v [dquote, squote]) ''A=1'' = Some (''A'', ''1'')" by code_simp
  have a: "parseEnvFile longEnvProject ''.env'' = []"
    by (simp add: parseEnvFile_def longEnvProject_def s)
  have b: "amended_parseEnvFile longEnvProject ''.env'' ''A'' = Some ''1''"
    by (simp add: amended_parseEnvFile_def spec_resolve_def longEnvProject_def longEnv_Split
        spec_line_hashes l)
  show ?thesis using a b by (intro conjI)
qed

subsection \<open>The keys of a file\<close>

text \<open>
  The keys that \<open>parseEnvFile\<close> returns are the keys that the reference reads, for every
  file all of whose lines are shorter than 65536 bytes.
\<close>

lemma spec_line_key:
  "map_option fst (spec_line u text) = map_option fst (spec_line u' text)"
  by (simp add: spec_line_def Let_def)

lemma map_filter_keys:
  "map fst (List.map_filter (spec_line u) ls) = map fst (List.map_filter (spec_line u') ls)"
proof (induction ls)
  case Nil
  then show ?case by (simp add: List.map_filter_simps)
next
  case (Cons l ls)
  show ?case
    using Cons.IH spec_line_key[of u l u']
    by (cases "spec_line u l"; cases "spec_line u' l") (auto simp: List.map_filter_simps)
qed

lemma spec_keys_resolve: "set (spec_keys files path) = dom (spec_resolve u files path)"
proof (cases "files path")
  case None
  then show ?thesis by (simp add: spec_keys_def spec_resolve_def)
next
  case (Some content)
  have "dom (map_of (rev (List.map_filter (spec_line u) (Split content newline))))
      = set (map fst (List.map_filter (spec_line u) (Split content newline)))"
    by (simp add: dom_map_of_conv_image_fst)
  then show ?thesis
    using Some map_filter_keys[of spec_unquote "Split content newline" u]
    by (simp add: spec_keys_def spec_resolve_def)
qed

lemma spec_keys_dom: "set (spec_keys files path) = dom (spec_parseEnvFile files path)"
  by (simp add: spec_parseEnvFile_def spec_keys_resolve)

lemma parseEnvFile_keys:
  assumes "shortLines files path"
  shows "fst ` set (parseEnvFile files path) = set (spec_keys files path)"
proof (cases "files path")
  case None
  then show ?thesis by (simp add: parseEnvFile_def spec_keys_def)
next
  case (Some content)
  have sl: "scanLines content = map dropCR (rawLines content)"
    using assms Some scanLines_short by (simp add: shortLines_def)
  have pl: "parseLine \<circ> dropCR = parseLine" by (rule ext) (simp add: parseLine_dropCR)
  have sp: "spec_line (\<lambda>v. Trim v [dquote, squote]) = parseLine"
    by (rule ext) (simp add: parseLine_spec)
  have "map_of (parseEnvFile files path)
      = spec_resolve (\<lambda>v. Trim v [dquote, squote]) files path"
    by (simp add: parseEnvFile_def spec_resolve_def Some sl
        foldl_update_map_of map_filter_map pl map_filter_rawLines sp)
  then have "dom (map_of (parseEnvFile files path)) = set (spec_keys files path)"
    using spec_keys_resolve[of files path "\<lambda>v. Trim v [dquote, squote]"] by simp
  then show ?thesis by (simp add: dom_map_of_conv_image_fst)
qed

lemma longEnv_scanLines: "scanLines longEnvContent = []"
  by (simp add: scanLines_def rawLines_def longEnv_Split MaxScanTokenSize_def)

section \<open>Ignore-code and profile filters: proofs\<close>

lemma contains_set: "contains slice s = (s \<in> set slice)"
  by (induction slice) auto

lemma ShouldIgnoreCode_set: "ShouldIgnoreCode cfg code = (code \<in> set (IgnoreCodes cfg))"
  by (auto simp: ShouldIgnoreCode_def list_ex_iff)

lemma filterIgnoredFindings_filter:
  "filterIgnoredFindings findings cfg = filter (\<lambda>f. Code f \<notin> set (IgnoreCodes cfg)) findings"
proof (cases "IgnoreCodes cfg = []")
  case True
  then show ?thesis by (simp add: filterIgnoredFindings_def)
next
  case False
  have "foldl (\<lambda>filtered f. if \<not> ShouldIgnoreCode cfg (Code f) then filtered @ [f] else filtered)
          [] findings = [] @ map (\<lambda>f. f) (filter (\<lambda>f. \<not> ShouldIgnoreCode cfg (Code f)) findings)"
    by (rule foldl_snoc_if)
  then show ?thesis using False by (simp add: filterIgnoredFindings_def ShouldIgnoreCode_set)
qed

lemma FilterFindings_step:
  "foldl (\<lambda>filtered f.
              if SeverityLevel (Severity f) < SeverityLevel (MinSeverity p) then filtered
              else if Severity f = SeverityInfo \<and> \<not> IncludeInfo p then filtered
              else if length (EnabledChecks p) > 0 \<and> \<not> contains (EnabledChecks p) (Code f)
                   then filtered
              else if contains (DisabledChecks p) (Code f) then filtered
              else filtered @ [f]) acc findings = acc @ filter (profileKeeps p) findings"
  by (induction findings arbitrary: acc) (auto simp: profileKeeps_def contains_set)

lemma FilterFindings_filter: "FilterFindings p findings = filter (profileKeeps p) findings"
  by (simp add: FilterFindings_def FilterFindings_step)

lemma Get_minimal: "Get ''minimal'' = Some \<lparr>Name = ''minimal'', MinSeverity = SeverityBlocking, EnabledChecks = [],
                     DisabledChecks = [], EnableSourceScanning = False, IncludeInfo = False\<rparr>"
  by (simp add: Get_def BuiltinProfiles_def)

lemma Get_default: "Get ''default'' = Some defaultProfile"
  by (simp add: Get_def BuiltinProfiles_def defaultProfile_def)

lemma Get_ci: "Get ''ci'' = Some \<lparr>Name = ''ci'', MinSeverity = SeverityWarning, EnabledChecks = [],
                DisabledChecks = [], EnableSourceScanning = False, IncludeInfo = False\<rparr>"
  by (simp add: Get_def BuiltinProfiles_def)

lemma keeps_minimal:
  "Get ''minimal'' = Some p \<Longrightarrow> profileKeeps p f = (Severity f = SeverityBlocking)"
  by (auto simp: Get_minimal profileKeeps_def SeverityLevel_def SeverityBlocking_def
      SeverityWarning_def SeverityInfo_def split: if_splits)

lemma keeps_ci:
  "Get ''ci'' = Some p \<Longrightarrow>
   profileKeeps p f = (Severity f = SeverityBlocking \<or> Severity f = SeverityWarning)"
  by (auto simp: Get_ci profileKeeps_def SeverityLevel_def SeverityBlocking_def
      SeverityWarning_def SeverityInfo_def split: if_splits)

lemma runScan_eq:
  "runScan w a cfg p ct = applyFilters cfg p (rawFindings w a (EnableSourceScanning p) (Some cfg) ct)"
  by (simp add: runScan_def CheckWithOptions_def applyFilters_def)

text \<open>
  Claim C8: the findings of a scan are those of all the checks, concatenated, after two
  filters.  On the concatenated findings the ignore-code filter runs first and drops every
  finding whose code is in \<open>ignore_codes\<close>; the profile filter then drops the findings
  strictly below \<open>min_severity\<close>, the info findings unless \<open>include_info\<close>, the codes
  outside a non-empty \<open>enabled_codes\<close>, and the codes in \<open>disabled_codes\<close>.  Hence, with
  no ignored code, profile \<open>minimal\<close> keeps exactly the blocking findings and profile \<open>ci\<close>
  exactly the blocking and the warning findings, whatever the input list.
\<close>

theorem C8_filter_order:
  "runScan w a cfg p checkTools =
     filter (profileKeeps p)
       (filter (\<lambda>f. Code f \<notin> set (IgnoreCodes cfg))
          (rawFindings w a (EnableSourceScanning p) (Some cfg) checkTools)) \<and>
   applyFilters cfg p raw =
     filter (profileKeeps p) (filter (\<lambda>f. Code f \<notin> set (IgnoreCodes cfg)) raw) \<and>
   (IgnoreCodes cfg = [] \<longrightarrow>
      (\<exists>pm. Get ''minimal'' = Some pm \<and>
          applyFilters cfg pm raw = filter (\<lambda>f. Severity f = SeverityBlocking) raw) \<and>
      (\<exists>pc. Get ''ci'' = Some pc \<and>
          applyFilters cfg pc raw =
            filter (\<lambda>f. Severity f = SeverityBlocking \<or> Severity f = SeverityWarning) raw))"
  by (simp add: runScan_eq applyFilters_def FilterFindings_filter filterIgnoredFindings_filter
      keeps_minimal keeps_ci Get_minimal Get_ci cong: filter_cong)

text \<open>
  The theorem at one blocking, two warning and three info findings with the default
  configuration: \<open>minimal\<close> yields the blocking finding alone, \<open>ci\<close> the blocking and the two
  warning findings.  And at a whole scan with profile \<open>default\<close>: a manifest that refers to
  \<open>${DATABASE_URL}\<close> on its fourth line, no environment file and no example give the one
  \<open>ENV001\<close> finding and nothing else.
\<close>

theorem C8_filter_order_witness:
  "IgnoreCodes DefaultConfig = [] \<and>
   (\<exists>pm. Get ''minimal'' = Some pm \<and>
      applyFilters DefaultConfig pm sixFindings = [NewFinding ''ENV001'' SeverityBlocking ''b1'']) \<and>
   (\<exists>pc. Get ''ci'' = Some pc \<and>
      applyFilters DefaultConfig pc sixFindings =
        [NewFinding ''ENV001'' SeverityBlocking ''b1'',
         NewFinding ''ENV002'' SeverityWarning ''w1'',
         NewFinding ''ENV003'' SeverityWarning ''w2'']) \<and>
   Get ''default'' = Some defaultProfile \<and>
   runScan dbWorld dbArtifacts DefaultConfig defaultProfile False
     = [env001Finding ''DATABASE_URL'' ''compose.yaml'' 4]"
proof -
  have h: "IgnoreCodes DefaultConfig = []" by (simp add: DefaultConfig_def)
  have m: "filter (\<lambda>f. Severity f = SeverityBlocking) sixFindings
      = [NewFinding ''ENV001'' SeverityBlocking ''b1'']"
    by (simp add: sixFindings_def NewFinding_def SeverityBlocking_def SeverityWarning_def
        SeverityInfo_def)
  have c: "filter (\<lambda>f. Severity f = SeverityBlocking \<or> Severity f = SeverityWarning) sixFindings
      = [NewFinding ''ENV001'' SeverityBlocking ''b1'',
         NewFinding ''ENV002'' SeverityWarning ''w1'',
         NewFinding ''ENV003'' SeverityWarning ''w2'']"
    by (simp add: sixFindings_def NewFinding_def SeverityBlocking_def SeverityWarning_def
        SeverityInfo_def)
  have e: "filter (profileKeeps defaultProfile)
       (filter (\<lambda>f. Code f \<notin> set (IgnoreCodes DefaultConfig))
          (rawFindings dbWorld dbArtifacts (EnableSourceScanning defaultProfile)
             (Some DefaultConfig) False))
      = [env001Finding ''DATABASE_URL'' ''compose.yaml'' 4]"
    by code_simp
  note t = C8_filter_order [of _ _ DefaultConfig _ _ sixFindings, THEN conjunct2, THEN conjunct2,
      THEN mp, OF h]
  note r = C8_filter_order [of dbWorld dbArtifacts DefaultConfig defaultProfile False,
      THEN conjunct1]
  have a: "(\<exists>pm. Get ''minimal'' = Some pm \<and>
      applyFilters DefaultConfig pm sixFindings = [NewFinding ''ENV001'' SeverityBlocking ''b1''])"
    using t [THEN conjunct1] by (simp add: m)
  have b: "(\<exists>pc. Get ''ci'' = Some pc \<and>
      applyFilters DefaultConfig pc sixFindings =
        [NewFinding ''ENV001'' SeverityBlocking ''b1'',
         NewFinding ''ENV002'' SeverityWarning ''w1'',
         NewFinding ''ENV003'' SeverityWarning ''w2''])"
    using t [THEN conjunct2] by (simp add: c)
  have d: "runScan dbWorld dbArtifacts DefaultConfig defaultProfile False
     = [env001Finding ''DATABASE_URL'' ''compose.yaml'' 4]"
    unfolding r by (rule e)
  show ?thesis by (intro conjI; (fact h | fact a | fact b | fact Get_default | fact d))
qed

section \<open>Environment example check: proofs\<close>

lemma HasEnvExample_first: "HasEnvExample a = (\<exists>ex. firstExample a = Some ex)"
  by (cases "find Found (EnvExamples a)")
     (auto simp: HasEnvExample_def firstExample_def list_ex_iff find_None_iff find_Some_iff)

lemma primaryEnv_HasEnv: "primaryEnv a = Some env \<Longrightarrow> HasEnv a"
  by (auto simp: primaryEnv_def HasEnv_def list_ex_iff find_Some_iff)


lemma checkEnvExample_noPrimary:
  "HasEnv a \<Longrightarrow> primaryEnv a = None \<Longrightarrow> checkEnvExample r files a = []"
  by (simp add: checkEnvExample_def Let_def split: option.splits)

lemma checkEnvExample_primary:
  assumes "firstExample a = Some ex" "primaryEnv a = Some env"
  shows "checkEnvExample r files a =
     map (env002Finding (Path ex) (Path env))
         (filter (\<lambda>k. k \<notin> fst ` set (parseEnvFile files (Path env)))
                 (r (parseEnvFile files (Path ex))))"
proof -
  have he: "HasEnvExample a" using assms(1) HasEnvExample_first by blast
  have hv: "HasEnv a" using assms(2) primaryEnv_HasEnv by blast
  have "foldl (\<lambda>fs key. if map_of (parseEnvFile files (Path env)) key = None
                 then fs @ [env002Finding (Path ex) (Path env) key] else fs) []
          (r (parseEnvFile files (Path ex)))
      = [] @ map (env002Finding (Path ex) (Path env))
         (filter (\<lambda>k. map_of (parseEnvFile files (Path env)) k = None)
                 (r (parseEnvFile files (Path ex))))"
    by (rule foldl_snoc_if)
  then show ?thesis
    using he hv assms by (simp add: checkEnvExample_def pathOf_def map_of_eq_None_iff)
qed








text \<open>
  Why the amended claim keeps to files with short lines: when the primary file defines A
  after a comment line of 65536 bytes, \<open>parseEnvFile\<close> returns no key for it, and the
  check reports A as missing, next to B.
\<close>

lemma checkEnvExample_long_line:
  "primaryEnv exampleAndEnv = Some (artifact ''env'' ''.env'' True) \<and>
   spec_keys longPrimaryProject ''.env.example'' = [''A'', ''B''] \<and>
   spec_keys longPrimaryProject ''.env'' = [''A''] \<and>
   checkEnvExample listOrder longPrimaryProject exampleAndEnv
     = [env002Finding ''.env.example'' ''.env'' ''A'',
        env002Finding ''.env.example'' ''.env'' ''B'']"
proof -
  have e: "firstExample exampleAndEnv = Some exampleArtifact" by code_simp
  have p: "primaryEnv exampleAndEnv = Some (artifact ''env'' ''.env'' True)" by code_simp
  have px: "Path exampleArtifact = ''.env.example''" "Path (artifact ''env'' ''.env'' True) = ''.env''"
    by (simp_all add: exampleArtifact_def artifact_def)
  have f1: "longPrimaryProject ''.env.example'' = exampleProject ''.env.example''"
    by (simp add: longPrimaryProject_def exampleProject_def)
  have f2: "longPrimaryProject ''.env'' = Some longEnvContent"
    by (simp add: longPrimaryProject_def)
  have x: "parseEnvFile exampleProject ''.env.example'' = [(''A'', ''1''), (''B'', ''2'')]"
    by code_simp
  have v1: "parseEnvFile longPrimaryProject ''.env.example'' = [(''A'', ''1''), (''B'', ''2'')]"
    using x by (simp add: parseEnvFile_def f1)
  have v2: "parseEnvFile longPrimaryProject ''.env'' = []"
    by (simp add: parseEnvFile_def f2 longEnv_scanLines)
  have kx: "spec_keys exampleProject ''.env.example'' = [''A'', ''B'']" by code_simp
  have k1: "spec_keys longPrimaryProject ''.env.example'' = [''A'', ''B'']"
    using kx by (simp add: spec_keys_def f1)
  have l: "spec_line spec_unquote ''A=1'' = Some (''A'', ''1'')" by code_simp
  have k2: "spec_keys longPrimaryProject ''.env'' = [''A'']"
    by (simp add: spec_keys_def f2 longEnv_Split List.map_filter_simps spec_line_hashes l)
  have c: "checkEnvExample listOrder longPrimaryProject exampleAndEnv
     = [env002Finding ''.env.example'' ''.env'' ''A'',
        env002Finding ''.env.example'' ''.env'' ''B'']"
    using checkEnvExample_primary[OF e p, of listOrder longPrimaryProject]
    by (simp add: px v1 v2 listOrder_def)
  show ?thesis by (intro conjI; (fact p | fact k1 | fact k2 | fact c))
qed

text \<open>
  Claim C10: when an example file is found and some environment file is found, but none of
  the found environment files has path \<open>.env\<close> or \<open>.env.local\<close>, the check emits nothing:
  no \<open>ENV003\<close> since an environment file exists, no \<open>ENV002\<close> since no primary file is
  selected.
\<close>

theorem C10_no_primary_no_findings:
  "HasEnvExample a \<Longrightarrow> HasEnv a \<Longrightarrow>
   (\<forall>e \<in> set (EnvFiles a). Found e \<longrightarrow> Path e \<noteq> ''.env'' \<and> Path e \<noteq> ''.env.local'') \<Longrightarrow>
   checkEnvExample r files a = []"
proof -
  assume h: "HasEnv a" and n: "\<forall>e \<in> set (EnvFiles a). Found e \<longrightarrow> Path e \<noteq> ''.env'' \<and> Path e \<noteq> ''.env.local''"
  have "primaryEnv a = None" using n by (auto simp: primaryEnv_def find_None_iff)
  then show ?thesis using h checkEnvExample_noPrimary by blast
qed

text \<open>The theorem at an example file next to \<open>.env.development\<close> alone.\<close>

theorem C10_no_primary_no_findings_witness:
  "HasEnvExample exampleAndDev \<and> HasEnv exampleAndDev \<and>
   map Path (filter Found (EnvFiles exampleAndDev)) = [''.env.development''] \<and>
   checkEnvExample listOrder exampleProject exampleAndDev = []"
proof -
  have h1: "HasEnvExample exampleAndDev" by code_simp
  have h2: "HasEnv exampleAndDev" by code_simp
  have h3: "\<forall>e \<in> set (EnvFiles exampleAndDev).
       Found e \<longrightarrow> Path e \<noteq> ''.env'' \<and> Path e \<noteq> ''.env.local''"
    by (simp add: exampleAndDev_def NewArtifacts_def envCandidates_def artifact_def)
  have h4: "map Path (filter Found (EnvFiles exampleAndDev)) = [''.env.development'']"
    by (simp add: exampleAndDev_def NewArtifacts_def envCandidates_def artifact_def)
  show ?thesis
    using h1 h2 h4 C10_no_primary_no_findings [OF h1 h2 h3, of listOrder exampleProject] by simp
qed

section \<open>Custom rules: proofs\<close>

lemma foldl_insert_set: "set (foldl (\<lambda>d k. List.insert k d) acc ks) = set acc \<union> set ks"
  by (induction ks arbitrary: acc) auto

lemma collectDefined_fold:
  "set (foldl (\<lambda>definedVars envFile.
              if Found envFile
              then foldl (\<lambda>d k. List.insert k d) definedVars
                         (map fst (parseEnvFile files (Path envFile)))
              else definedVars) acc es)
   = set acc \<union> (\<Union>e \<in> {e \<in> set es. Found e}. fst ` set (parseEnvFile files (Path e)))"
  by (induction es arbitrary: acc) (auto simp: foldl_insert_set)

lemma collectDefined_set:
  "set (collectDefined files a)
   = (\<Union>e \<in> {e \<in> set (EnvFiles a). Found e}. fst ` set (parseEnvFile files (Path e)))"
  by (simp add: collectDefined_def collectDefined_fold)

lemma customRule_step:
  "(\<lambda>findings rule.
       if \<not> Required rule then findings
       else (case compile (Pattern rule) of
               None \<Rightarrow> findings
             | Some matchString \<Rightarrow>
                 if list_ex matchString defined then findings
                 else findings @ [customFinding rule]))
   = (\<lambda>findings rule. findings @ spec_ruleFindings compile defined rule)"
  by (intro ext) (simp add: spec_ruleFindings_def list_ex_iff split: option.splits)

lemma checkCustomRules_concat:
  "checkCustomRules compile files a cfg
   = concat (map (spec_ruleFindings compile (collectDefined files a)) (CustomRules cfg))"
  by (simp add: checkCustomRules_def Let_def customRule_step foldl_snoc_concat)

text \<open>
  The findings of the custom rule engine are the contributions of the rules, in the order
  of the configuration, and what a rule contributes depends only on the set of the names
  that \<open>parseEnvFile\<close> returns for the environment files found.  When every found
  environment file has lines shorter than 65536 bytes, these are the names that the files
  define, and the engine does what the specification says: a rule with \<open>required = true\<close>
  whose pattern compiles contributes exactly one finding \<open>CUSTOM-<id>\<close> when no defined
  name matches, and nothing when one does; its severity is the configured one, \<open>warning\<close>
  when the value is neither \<open>blocking\<close> nor \<open>info\<close>; a rule whose pattern does not
  compile, and a rule with \<open>required = false\<close>, contribute nothing.
\<close>

lemma spec_ruleFindings_cong:
  "set d = set d' \<Longrightarrow> spec_ruleFindings compile d = spec_ruleFindings compile d'"
  by (rule ext) (simp add: spec_ruleFindings_def split: option.splits)

lemma spec_definedNames_set:
  "set (spec_definedNames files a)
   = (\<Union>e \<in> {e \<in> set (EnvFiles a). Found e}. set (spec_keys files (Path e)))"
  by (auto simp: spec_definedNames_def)

lemma collectDefined_shortLines:
  assumes "\<forall>e \<in> set (EnvFiles a). Found e \<longrightarrow> shortLines files (Path e)"
  shows "set (collectDefined files a) = set (spec_definedNames files a)"
  using assms by (auto simp: collectDefined_set spec_definedNames_set parseEnvFile_keys)

lemma checkCustomRules_shortLines:
  assumes "\<forall>e \<in> set (EnvFiles a). Found e \<longrightarrow> shortLines files (Path e)"
  shows "checkCustomRules compile files a cfg = spec_checkCustomRules compile files a cfg"
  using spec_ruleFindings_cong[OF collectDefined_shortLines[OF assms], of compile]
  by (simp add: checkCustomRules_concat spec_checkCustomRules_def)

lemma customFinding_code_severity:
  "Code (customFinding rule) = ''CUSTOM-'' @ ID rule \<and>
   Severity (customFinding rule)
     = (if RuleSeverity rule = ''blocking'' then SeverityBlocking
        else if RuleSeverity rule = ''info'' then SeverityInfo
        else SeverityWarning)"
  by (simp add: customFinding_def ruleSeverity_def WithFix_def WithDetails_def NewFinding_def)

text \<open>
  Four rules and an example file alone (no name is defined): the required rule
  \<open>^DATABASE_\<close> gives one blocking \<open>CUSTOM-DB_REQUIRED\<close>, the rule with no severity a
  warning, the broken and the optional rule nothing.  Once \<open>.env\<close> defines A, the rule
  that matches everything is satisfied.
\<close>

lemma checkCustomRules_sample:
  "map (\<lambda>f. (Code f, Severity f))
       (checkCustomRules sampleCompile exampleProject exampleOnly sampleRules)
     = [(''CUSTOM-DB_REQUIRED'', ''blocking''), (''CUSTOM-ANY'', ''warning'')] \<and>
   map (\<lambda>f. (Code f, Severity f))
       (checkCustomRules sampleCompile exampleProject exampleAndEnv sampleRules)
     = [(''CUSTOM-DB_REQUIRED'', ''blocking'')]"
proof -
  have a: "map (\<lambda>f. (Code f, Severity f))
      (concat (map (spec_ruleFindings sampleCompile (collectDefined exampleProject exampleOnly))
                   (CustomRules sampleRules)))
     = [(''CUSTOM-DB_REQUIRED'', ''blocking''), (''CUSTOM-ANY'', ''warning'')]"
    by code_simp
  have b: "map (\<lambda>f. (Code f, Severity f))
      (concat (map (spec_ruleFindings sampleCompile (collectDefined exampleProject exampleAndEnv))
                   (CustomRules sampleRules)))
     = [(''CUSTOM-DB_REQUIRED'', ''blocking'')]"
    by code_simp
  show ?thesis unfolding checkCustomRules_concat using a b by (intro conjI)
qed

lemma longDb_Split:
  "Split longDbContent newline = [replicate 65536 (CHR ''#''), ''DATABASE_URL=x'']"
proof -
  have "Split longDbContent newline
      = replicate 65536 (CHR ''#'') # Split ''DATABASE_URL=x'' newline"
    unfolding longDbContent_def by (rule Split_append) (simp add: newline_def)
  then show ?thesis by (simp add: newline_def)
qed

lemma longDb_scanLines: "scanLines longDbContent = []"
  by (simp add: scanLines_def rawLines_def longDb_Split MaxScanTokenSize_def)

text \<open>
  Claim C9 fails on the code when an environment file has a line of 65536 bytes or more:
  the loop of \<open>parseEnvFile\<close> ends at that line and the names defined after it are not
  collected.  Here \<open>.env\<close> defines \<open>DATABASE_URL\<close> on its second line, after a comment
  line of 65536 bytes, and the rule \<open>DB_REQUIRED\<close> requires a name that matches
  \<open>^DATABASE_\<close>: a defined name matches, the claim asks for no finding, and the code
  emits \<open>CUSTOM-DB_REQUIRED\<close>.
\<close>

theorem C9_long_line_hides_definition:
  "spec_parseEnvFile longDbProject ''.env'' ''DATABASE_URL'' = Some ''x'' \<and>
   spec_definedNames longDbProject envOnly = [''DATABASE_URL''] \<and>
   Required dbRequired \<and>
   map_option (\<lambda>matchString. matchString ''DATABASE_URL'') (sampleCompile (Pattern dbRequired))
     = Some True \<and>
   spec_checkCustomRules sampleCompile longDbProject envOnly dbRequiredConfig = [] \<and>
   checkCustomRules sampleCompile longDbProject envOnly dbRequiredConfig
     = [customFinding dbRequired] \<and>
   Code (customFinding dbRequired) = ''CUSTOM-DB_REQUIRED''"
proof -
  have fe: "longDbProject ''.env'' = Some longDbContent" by (simp add: longDbProject_def)
  have l: "spec_line spec_unquote ''DATABASE_URL=x'' = Some (''DATABASE_URL'', ''x'')"
    by code_simp
  have a: "spec_parseEnvFile longDbProject ''.env'' ''DATABASE_URL'' = Some ''x''"
    by (simp add: spec_parseEnvFile_def spec_resolve_def fe longDb_Split List.map_filter_simps
        spec_line_hashes l)
  have k: "spec_keys longDbProject ''.env'' = [''DATABASE_URL'']"
    by (simp add: spec_keys_def fe longDb_Split List.map_filter_simps spec_line_hashes l)
  have fs: "filter Found (EnvFiles envOnly) = [artifact ''env'' ''.env'' True]"
    by (simp add: envOnly_def NewArtifacts_def envCandidates_def artifact_def)
  have b: "spec_definedNames longDbProject envOnly = [''DATABASE_URL'']"
    by (simp add: spec_definedNames_def fs k artifact_def)
  have c: "Required dbRequired" by (simp add: dbRequired_def)
  have m: "sampleCompile (Pattern dbRequired) = Some (\<lambda>name. HasPrefix name ''DATABASE_'')"
    by (simp add: sampleCompile_def dbRequired_def)
  have h: "HasPrefix ''DATABASE_URL'' ''DATABASE_''" by code_simp
  have d: "map_option (\<lambda>matchString. matchString ''DATABASE_URL'')
        (sampleCompile (Pattern dbRequired)) = Some True"
    by (simp add: m h)
  have r: "CustomRules dbRequiredConfig = [dbRequired]"
    by (simp add: dbRequiredConfig_def DefaultConfig_def)
  have e: "spec_checkCustomRules sampleCompile longDbProject envOnly dbRequiredConfig = []"
    by (simp add: spec_checkCustomRules_def r spec_ruleFindings_def c m b h)
  have p: "parseEnvFile longDbProject ''.env'' = []"
    by (simp add: parseEnvFile_def fe longDb_scanLines)
  have cd: "collectDefined longDbProject envOnly = []"
    by (simp add: collectDefined_def envOnly_def NewArtifacts_def envCandidates_def artifact_def p)
  have f: "checkCustomRules sampleCompile longDbProject envOnly dbRequiredConfig
     = [customFinding dbRequired]"
    by (simp add: checkCustomRules_concat r spec_ruleFindings_def c m cd)
  have g: "Code (customFinding dbRequired) = ''CUSTOM-DB_REQUIRED''"
    by (simp add: customFinding_def dbRequired_def WithFix_def WithDetails_def NewFinding_def)
  show ?thesis by (intro conjI; (fact a | fact b | fact c | fact d | fact e | fact f | fact g))
qed

section \<open>Service dependencies: proofs\<close>




lemma services_step:
  "foldl (\<lambda>findings (svcName, dependsOn).
            foldl (\<lambda>findings dep. if dep \<notin> set names
                                   then findings @ [cmp001Finding svcName dep path]
                                   else findings)
                  findings (extractDependsOn dependsOn)) acc services
   = acc @ concat (map (\<lambda>(svcName, dependsOn).
                          map (\<lambda>dep. cmp001Finding svcName dep path)
                              (filter (\<lambda>dep. dep \<notin> set names) (extractDependsOn dependsOn)))
                       services)"
  by (induction services arbitrary: acc) (auto simp: foldl_snoc_if)

lemma unknownDeps_map:
  "map (\<lambda>(svcName, dep). cmp001Finding svcName dep path)
       (concat (map (\<lambda>(svcName, dependsOn).
                       map (\<lambda>dep. (svcName, dep)) (filter P (extractDependsOn dependsOn))) xs))
   = concat (map (\<lambda>(svcName, dependsOn).
                    map (\<lambda>dep. cmp001Finding svcName dep path)
                        (filter P (extractDependsOn dependsOn))) xs)"
  by (induction xs) auto

lemma unknownDeps_findings:
  "map (\<lambda>(svcName, dep). cmp001Finding svcName dep path) (spec_unknownDeps services)
   = concat (map (\<lambda>(svcName, dependsOn).
                          map (\<lambda>dep. cmp001Finding svcName dep path)
                              (filter (\<lambda>dep. dep \<notin> fst ` set services) (extractDependsOn dependsOn)))
                       services)"
  unfolding spec_unknownDeps_def by (rule unknownDeps_map)

lemma compose_step:
  "(\<lambda>findings composeFile.
              if \<not> Found composeFile then findings
              else (case files (Path composeFile) of
                      None \<Rightarrow> findings
                    | Some content \<Rightarrow>
                        (case unmarshal content of
                           None \<Rightarrow> findings
                         | Some services \<Rightarrow>
                             (let serviceNames = map fst services
                              in foldl (\<lambda>findings (svcName, dependsOn).
                                          foldl (\<lambda>findings dep.
                                                   if dep \<notin> set serviceNames
                                                   then findings @
                                                        [cmp001Finding svcName dep (Path composeFile)]
                                                   else findings)
                                                findings (extractDependsOn dependsOn))
                                       findings services))))
   = (\<lambda>findings composeFile. findings @ spec_manifestFindings unmarshal files composeFile)"
  by (intro ext)
     (simp add: spec_manifestFindings_def services_step unknownDeps_findings split: option.splits)

lemma checkComposeDependsOn_concat: "checkComposeDependsOn unmarshal files a
   = concat (map (spec_manifestFindings unmarshal files) (ComposeFiles a))"
  by (simp add: checkComposeDependsOn_def compose_step foldl_snoc_concat)



section \<open>Compose scanner: proofs\<close>

lemma varName_step:
  "foldl (\<lambda>findings varName.
            if varName \<notin> set defined \<and> \<not> isStandardVar varName
            then findings @ [env001Finding varName path n] else findings) acc names
   = acc @ map (\<lambda>varName. env001Finding varName path n)
               (filter (\<lambda>varName. varName \<notin> set defined \<and> \<not> isStandardVar varName) names)"
  by (rule foldl_snoc_if)

lemma lines_step_norm:
  "foldl (\<lambda>(findings, lineNum) line.
            (findings @ map (\<lambda>varName. env001Finding varName path (lineNum + 1))
                            (filter P (findAll matchVarRef line)),
             lineNum + 1))
         (acc, k) ls
   = (acc @ map (\<lambda>(varName, n). env001Finding varName path n)
               (filter (\<lambda>(varName, n). P varName)
                  (concat (map (\<lambda>(n, l). map (\<lambda>varName. (varName, n)) (findAll matchVarRef l))
                               (numberedFrom k ls)))),
      k + int (length ls))"
proof (induction ls arbitrary: acc k)
  case Nil
  then show ?case by simp
next
  case (Cons l ls)
  have m: "map (\<lambda>(varName, n). env001Finding varName path n)
        (filter (\<lambda>(varName, n). P varName) (map (\<lambda>varName. (varName, k + 1)) names))
      = map (\<lambda>varName. env001Finding varName path (k + 1)) (filter P names)" for names
    by (induction names) auto
  show ?case
    by (simp add: Cons.IH m add.assoc)
qed

lemma lines_step:
  "foldl (\<lambda>(findings, lineNum) line.
            (foldl (\<lambda>findings varName.
                      if varName \<notin> set defined \<and> \<not> isStandardVar varName
                      then findings @ [env001Finding varName path (lineNum + 1)]
                      else findings)
                   findings (findAll matchVarRef line),
             lineNum + 1))
         (acc, k) ls
   = (acc @ map (\<lambda>(varName, n). env001Finding varName path n)
               (filter (\<lambda>(varName, n). varName \<notin> set defined \<and> \<not> isStandardVar varName)
                  (concat (map (\<lambda>(n, l). map (\<lambda>varName. (varName, n)) (findAll matchVarRef l))
                               (numberedFrom k ls)))),
      k + int (length ls))"
  by (simp add: varName_step lines_step_norm)

lemma composeFile_step:
  "(\<lambda>findings composeFile.
                  if \<not> Found composeFile then findings
                  else (case files (Path composeFile) of
                          None \<Rightarrow> findings
                        | Some content \<Rightarrow>
                            fst (foldl (\<lambda>(findings, lineNum) line.
                                          (foldl (\<lambda>findings varName.
                                                    if varName \<notin> set (collectDefined files a) \<and>
                                                       \<not> isStandardVar varName
                                                    then findings @
                                                         [env001Finding varName (Path composeFile)
                                                            (lineNum + 1)]
                                                    else findings)
                                                 findings (findAll matchVarRef line),
                                           lineNum + 1))
                                       (findings, 0) (scanLines content))))
  = (\<lambda>findings composeFile. findings @ occurrenceFindings scanLines files a composeFile)"
  by (intro ext)
     (simp add: lines_step occurrenceFindings_def occurrencesIn_def numbered_def
        split: option.splits)

lemma checkComposeEnvRefs_concat:
  "checkComposeEnvRefs files a
   = concat (map (occurrenceFindings scanLines files a) (ComposeFiles a))"
  unfolding checkComposeEnvRefs_def Let_def composeFile_step
  by (simp add: foldl_snoc_concat)

lemma scanLines_textLines:
  "shortLines files path \<Longrightarrow> files path = Some content \<Longrightarrow> scanLines content = textLines content"
  by (simp add: shortLines_def scanLines_short textLines_def)

lemma checkComposeEnvRefs_shortLines:
  assumes "\<forall>cf \<in> set (ComposeFiles a). Found cf \<longrightarrow> shortLines files (Path cf)"
  shows "checkComposeEnvRefs files a = spec_checkComposeEnvRefs files a"
proof -
  have "occurrenceFindings scanLines files a cf = occurrenceFindings textLines files a cf"
    if "cf \<in> set (ComposeFiles a)" for cf
    using assms that
    by (auto simp: occurrenceFindings_def scanLines_textLines split: option.splits)
  then show ?thesis
    by (simp add: checkComposeEnvRefs_concat spec_checkComposeEnvRefs_def cong: map_cong)
qed

lemma matchVarRef_no_dollar: "CHR ''$'' \<notin> set s \<Longrightarrow> matchVarRef s = None"
proof -
  assume n: "CHR ''$'' \<notin> set s"
  have "\<not> HasPrefix s ''${''" using n by (cases s) (auto simp: HasPrefix_def)
  then show ?thesis by (simp add: matchVarRef_def)
qed

lemma findAll_no_dollar: "CHR ''$'' \<notin> set s \<Longrightarrow> findAll matchVarRef s = []"
proof (induction s)
  case Nil
  then show ?case by (subst findAll.simps) (simp add: matchVarRef_no_dollar)
next
  case (Cons c s)
  then show ?case by (subst findAll.simps) (simp add: matchVarRef_no_dollar)
qed

lemma longLine_rawLines:
  "rawLines longLineContent = [replicate 65536 (CHR ''#''), ''image: ${X}'']"
proof -
  have "Split longLineContent newline
      = replicate 65536 (CHR ''#'') # Split (''image: ${X}'' @ [newline]) newline"
    unfolding longLineContent_def by (rule Split_append) (simp add: newline_def)
  then show ?thesis by (simp add: rawLines_def newline_def)
qed

lemma longLine_scanLines: "scanLines longLineContent = []"
  by (simp add: scanLines_def longLine_rawLines MaxScanTokenSize_def)

lemma longLine_textLines:
  "textLines longLineContent = [replicate 65536 (CHR ''#''), ''image: ${X}'']"
  by (simp add: textLines_def longLine_rawLines dropCR_def)

text \<open>
  Claim C3 holds for every compose file whose lines are shorter than 65536 bytes
  (\<open>checkComposeEnvRefs_shortLines\<close>), and fails otherwise: the scanner's loop ends at the
  first line of that length, and the references on the lines after it are not reported.
  Here the second line refers to the undefined variable \<open>X\<close>; the claim asks for the
  finding at line 2, and the code emits none.
\<close>

theorem C3_long_line_stops_scan:
  "spec_occurrences longLineContent = [(''X'', 2)] \<and>
   checkComposeEnvRefs longLineProject composeOnly = [] \<and>
   spec_checkComposeEnvRefs longLineProject composeOnly = [env001Finding ''X'' ''compose.yaml'' 2]"
proof -
  have f: "findAll matchVarRef ''image: ${X}'' = [''X'']" by code_simp
  have d: "collectDefined longLineProject composeOnly = []"
    by (simp add: collectDefined_def composeOnly_def NewArtifacts_def)
  have s: "\<not> isStandardVar ''X''" by (simp add: isStandardVar_def)
  have c: "ComposeFiles composeOnly = [artifact ''compose'' ''compose.yaml'' True]"
    by (simp add: composeOnly_def NewArtifacts_def)
  have o: "occurrencesIn (textLines longLineContent) = [(''X'', 2)]"
    by (simp add: longLine_textLines occurrencesIn_def numbered_def findAll_no_dollar f)
  have a: "checkComposeEnvRefs longLineProject composeOnly = []"
    by (simp add: checkComposeEnvRefs_concat c artifact_def
        occurrenceFindings_def longLineProject_def longLine_scanLines occurrencesIn_def
        numbered_def)
  have b: "spec_checkComposeEnvRefs longLineProject composeOnly
      = [env001Finding ''X'' ''compose.yaml'' 2]"
    by (simp add: spec_checkComposeEnvRefs_def c artifact_def
        occurrenceFindings_def longLineProject_def o d s)
  have o': "spec_occurrences longLineContent = [(''X'', 2)]"
    using o by (simp add: spec_occurrences_def)
  show ?thesis using o' a b by (intro conjI)
qed

section \<open>Source scanner: proofs\<close>

lemma itemStep_simp:
  "itemStep defined (found, fs) (v, p, n) =
     (if v \<notin> set defined \<and> \<not> isStandardVar v \<and> v \<notin> set found
      then (v # found, fs @ [src001Finding v p n]) else (found, fs))"
  by (simp add: itemStep_def)

lemma foldl_nested: "foldl (\<lambda>s x. foldl f s (g x)) s xs = foldl f s (concat (map g xs))"
  by (induction xs arbitrary: s) simp_all

lemma numberedFrom_shift:
  "map (\<lambda>(n, l). (n + 1, l)) (numberedFrom k ls) = numberedFrom (k + 1) ls"
  by (induction ls arbitrary: k) simp_all

lemma numberedFrom_shift':
  "map (\<lambda>p. (fst p + 1, snd p)) (numberedFrom k ls) = numberedFrom (k + 1) ls"
  using numberedFrom_shift[of k ls] by (simp add: split_def)

lemma names_items:
  "foldl (\<lambda>(foundUndefined, findings) varName.
             if varName \<notin> set defined \<and> \<not> isStandardVar varName \<and> varName \<notin> set foundUndefined
             then (varName # foundUndefined, findings @ [src001Finding varName relPath n])
             else (foundUndefined, findings)) state names
   = foldl (itemStep defined) state (map (\<lambda>varName. (varName, relPath, n)) names)"
  by (induction names arbitrary: state) (auto simp: itemStep_simp split: prod.splits)

lemma scanSource_items:
  "scanSource defined state (relPath, content)
   = foldl (itemStep defined) state
       (concat (map (\<lambda>(n, line).
                         concat (map (\<lambda>pattern.
                                   map (\<lambda>varName. (varName, relPath, n))
                                       (findAll (matchElems pattern []) line))
                                 patterns))
                       (numbered (Split content newline))))"
proof -
  have "scanSource defined state (relPath, content)
      = foldl (\<lambda>state (lineNum, line).
                 foldl (itemStep defined) state
                   (concat (map (\<lambda>pattern. map (\<lambda>varName. (varName, relPath, lineNum + 1))
                                       (findAll (matchElems pattern []) line)) patterns)))
              state (numberedFrom (- 1) (Split content newline))"
    by (simp add: scanSource_def names_items foldl_nested)
  also have "\<dots> = foldl (\<lambda>state (n, line).
                 foldl (itemStep defined) state
                   (concat (map (\<lambda>pattern. map (\<lambda>varName. (varName, relPath, n))
                                       (findAll (matchElems pattern []) line)) patterns)))
              state (map (\<lambda>(n, l). (n + 1, l)) (numberedFrom (- 1) (Split content newline)))"
    by (simp add: foldl_map split_def)
  also have "\<dots> = foldl (\<lambda>state x.
                 foldl (itemStep defined) state
                   ((\<lambda>(n, line). concat (map (\<lambda>pattern. map (\<lambda>varName. (varName, relPath, n))
                                       (findAll (matchElems pattern []) line)) patterns)) x))
              state (numbered (Split content newline))"
    by (simp add: numberedFrom_shift' numbered_def split_def)
  finally show ?thesis by (simp only: foldl_nested)
qed

lemma walk_items:
  "foldl (scanSource defined) state fs
   = foldl (itemStep defined) state
       (concat (map (\<lambda>(relPath, content).
               concat (map (\<lambda>(n, line).
                         concat (map (\<lambda>pattern.
                                   map (\<lambda>varName. (varName, relPath, n))
                                       (findAll (matchElems pattern []) line))
                                 patterns))
                       (numbered (Split content newline))))
             fs))"
proof -
  have "foldl (scanSource defined) state fs
      = foldl (\<lambda>s x. foldl (itemStep defined) s
          ((\<lambda>(relPath, content).
               concat (map (\<lambda>(n, line).
                         concat (map (\<lambda>pattern.
                                   map (\<lambda>varName. (varName, relPath, n))
                                       (findAll (matchElems pattern []) line))
                                 patterns))
                       (numbered (Split content newline)))) x)) state fs"
    by (rule arg_cong[where f="\<lambda>f. foldl f state fs"]) (auto simp: fun_eq_iff scanSource_items)
  then show ?thesis by (simp only: foldl_nested)
qed

lemma itemStep_first:
  "snd (foldl (itemStep defined) (found, fs) items)
   = fs @ map (\<lambda>(v, p, n). src001Finding v p n)
            (firstOccurrences found
               (filter (\<lambda>(v, _). v \<notin> set defined \<and> \<not> isStandardVar v) items))"
proof (induction items arbitrary: found fs)
  case Nil
  then show ?case by simp
next
  case (Cons x xs)
  obtain v p n where x: "x = (v, p, n)" by (cases x) auto
  show ?case by (simp add: x itemStep_simp Cons.IH)
qed

lemma checkSource_first:
  "checkSourceCodeEnvRefs tree files a
   = map (\<lambda>(v, p, n). src001Finding v p n) (firstOccurrences [] (undefinedRefs files a tree))"
  by (simp add: checkSourceCodeEnvRefs_def walk_items itemStep_first undefinedRefs_def extracted_def)

lemma firstOccurrences_subset: "set (firstOccurrences seen xs) \<subseteq> set xs"
  by (induction xs arbitrary: seen) auto

lemma firstOccurrences_fst:
  "fst ` set (firstOccurrences seen xs) = fst ` set xs - set seen"
  by (induction xs arbitrary: seen) auto

lemma firstOccurrences_distinct: "distinct (map fst (firstOccurrences seen xs))"
proof (induction xs arbitrary: seen)
  case Nil
  then show ?case by simp
next
  case (Cons x xs)
  have "fst x \<notin> fst ` set (firstOccurrences (fst x # seen) xs)"
    by (simp add: firstOccurrences_fst)
  then show ?case using Cons.IH by auto
qed

lemma firstOccurrences_first:
  "x \<in> set (firstOccurrences seen xs) \<Longrightarrow>
   \<exists>pre post. xs = pre @ x # post \<and> fst x \<notin> fst ` set pre"
proof (induction xs arbitrary: seen)
  case Nil
  then show ?case by simp
next
  case (Cons y ys)
  show ?case
  proof (cases "fst y \<in> set seen")
    case True
    then have xin: "x \<in> set (firstOccurrences seen ys)" using Cons.prems by simp
    then obtain pre post where pp: "ys = pre @ x # post" "fst x \<notin> fst ` set pre"
      using Cons.IH by blast
    have "fst x \<notin> set seen" using xin firstOccurrences_fst[of seen ys] by (metis DiffD2 image_eqI)
    then have "fst x \<noteq> fst y" using True by auto
    then have "y # ys = (y # pre) @ x # post \<and> fst x \<notin> fst ` set (y # pre)"
      using pp by auto
    then show ?thesis by blast
  next
    case False
    show ?thesis
    proof (cases "x = y")
      case True
      then have "y # ys = [] @ x # ys \<and> fst x \<notin> fst ` set []" by simp
      then show ?thesis by blast
    next
      case neq: False
      then have xin: "x \<in> set (firstOccurrences (fst y # seen) ys)"
        using Cons.prems False by simp
      then obtain pre post where pp: "ys = pre @ x # post" "fst x \<notin> fst ` set pre"
        using Cons.IH by blast
      have "fst x \<notin> set (fst y # seen)"
        using xin firstOccurrences_fst[of "fst y # seen" ys] by (metis DiffD2 image_eqI)
      then have "fst x \<noteq> fst y" by auto
      then have "y # ys = (y # pre) @ x # post \<and> fst x \<notin> fst ` set (y # pre)"
        using pp by auto
      then show ?thesis by blast
    qed
  qed
qed

text \<open>
  Claim C4: when source scanning is enabled, the findings of the source scanner are one
  \<open>SRC001\<close> warning for each name that the patterns extract from the scanned files and
  that is neither defined in a found environment file nor standard: the names of the
  findings are distinct, they are exactly these names, and the finding of a name carries
  the file and line of its first occurrence in the order of the scan, later occurrences
  (in any file) adding nothing.  When source scanning is disabled there is no finding.
\<close>

theorem C4_source_scan_dedup:
  "sourceFindings True tree files a
     = map (\<lambda>(v, p, n). src001Finding v p n)
           (firstOccurrences [] (undefinedRefs files a tree)) \<and>
   distinct (map fst (firstOccurrences [] (undefinedRefs files a tree))) \<and>
   fst ` set (firstOccurrences [] (undefinedRefs files a tree))
     = fst ` set (undefinedRefs files a tree) \<and>
   (\<forall>x \<in> set (firstOccurrences [] (undefinedRefs files a tree)).
      \<exists>pre post. undefinedRefs files a tree = pre @ x # post \<and> fst x \<notin> fst ` set pre) \<and>
   Code (src001Finding v p n) = ''SRC001'' \<and>
   Severity (src001Finding v p n) = SeverityWarning \<and>
   Title (src001Finding v p n) = src001Title v \<and>
   Files (src001Finding v p n) = [\<lparr>File = p, Line = n, Column = 0\<rparr>] \<and>
   (src001Title v = src001Title v' \<longrightarrow> v = v') \<and>
   sourceFindings False tree files a = []"
proof -
  have f1: "sourceFindings True tree files a
     = map (\<lambda>(v, p, n). src001Finding v p n)
           (firstOccurrences [] (undefinedRefs files a tree))"
    by (simp add: sourceFindings_def checkSource_first)
  have f2: "distinct (map fst (firstOccurrences [] (undefinedRefs files a tree)))"
    by (rule firstOccurrences_distinct)
  have f3: "fst ` set (firstOccurrences [] (undefinedRefs files a tree))
     = fst ` set (undefinedRefs files a tree)"
    by (simp add: firstOccurrences_fst)
  have f4: "\<forall>x \<in> set (firstOccurrences [] (undefinedRefs files a tree)).
      \<exists>pre post. undefinedRefs files a tree = pre @ x # post \<and> fst x \<notin> fst ` set pre"
    using firstOccurrences_first by blast
  have f5: "Code (src001Finding v p n) = ''SRC001''"
    and f6: "Severity (src001Finding v p n) = SeverityWarning"
    and f7: "Title (src001Finding v p n) = src001Title v"
    and f8: "Files (src001Finding v p n) = [\<lparr>File = p, Line = n, Column = 0\<rparr>]"
    by (simp_all add: src001Finding_def WithFix_def WithFile_def WithDetails_def NewFinding_def)
  have f9: "src001Title v = src001Title v' \<longrightarrow> v = v'"
    by (simp add: src001Title_def)
  have f10: "sourceFindings False tree files a = []"
    by (simp add: sourceFindings_def)
  show ?thesis
    by (intro conjI; (fact f1 | fact f2 | fact f3 | fact f4 | fact f5 | fact f6 | fact f7 |
          fact f8 | fact f9 | fact f10))
qed

text \<open>
  The theorem at a tree where \<open>PORT\<close> is read in \<open>main.go\<close> and again in \<open>web/app.js\<close>,
  \<open>API_KEY\<close> twice in \<open>web/app.js\<close>, \<open>HOME\<close> (standard) and \<open>A\<close> (defined in \<open>.env\<close>) in
  \<open>main.go\<close>: one finding for \<open>PORT\<close> at its first occurrence and one for \<open>API_KEY\<close>.
\<close>

theorem C4_source_scan_dedup_witness:
  "sourceFindings True sourceTree refsProject composeAndEnv
     = [src001Finding ''PORT'' ''main.go'' 1, src001Finding ''API_KEY'' ''web/app.js'' 1]"
proof -
  have e: "map (\<lambda>(v, p, n). src001Finding v p n)
             (firstOccurrences [] (undefinedRefs refsProject composeAndEnv sourceTree))
      = [src001Finding ''PORT'' ''main.go'' 1, src001Finding ''API_KEY'' ''web/app.js'' 1]"
    by code_simp
  note t = C4_source_scan_dedup [of sourceTree refsProject composeAndEnv, THEN conjunct1]
  show ?thesis unfolding t by (rule e)
qed

section \<open>The other checks: proofs\<close>

lemma foldl_list_all:
  assumes "\<And>acc x. list_all P acc \<Longrightarrow> list_all P (f acc x)" and "list_all P acc"
  shows "list_all P (foldl f acc xs)"
  using assms(2) by (induction xs arbitrary: acc) (simp_all add: assms(1))

lemma buildContexts_codes:
  "list_all (\<lambda>f. Code f = ''BUILD001'' \<or> Code f = ''BUILD002'')
     (checkBuildContexts unmarshalB joinP notEx files a)"
proof -
  let ?P = "\<lambda>f. Code f = ''BUILD001'' \<or> Code f = ''BUILD002''"
  have c1: "Code (build001Finding j s c d p) = ''BUILD001''" for j s c d p
    by (simp add: build001Finding_def WithFix_def WithFile_def WithDetails_def NewFinding_def)
  have c2: "Code (build002Finding s c p) = ''BUILD002''" for s c p
    by (simp add: build002Finding_def WithFix_def WithFile_def WithDetails_def NewFinding_def)
  have inner: "list_all ?P
      (foldl (\<lambda>findings (svcName, build).
                 if build = BuildNil then findings
                 else (case buildOf build of (context, dockerfile) \<Rightarrow>
                         if context = [] then findings
                         else (let findings1 =
                                     (if notEx [context, dockerfile]
                                      then findings @ [build001Finding joinP svcName context dockerfile path]
                                      else findings)
                               in if notEx [context]
                                  then findings1 @ [build002Finding svcName context path]
                                  else findings1)))
              acc services)"
    if "list_all ?P acc" for acc services path
    by (rule foldl_list_all[OF _ that]) (auto simp: c1 c2 Let_def split: prod.splits)
  show ?thesis
    unfolding checkBuildContexts_def
    by (rule foldl_list_all) (auto simp: inner split: option.splits)
qed

lemma languageInfo_codes: "list_all (\<lambda>f. Code f = ''LANG001'') (addLanguageInfo a)"
  by (simp add: addLanguageInfo_def NewFinding_def)

lemma readmeHints_codes: "list_all (\<lambda>f. Code f = ''HINT001'') (checkReadmeHints lower files a)"
  by (simp add: checkReadmeHints_def NewFinding_def split: option.splits)

lemma toolVersions_codes:
  "list_all (\<lambda>f. Code f = ''TOOL001'' \<or> Code f = ''TOOL002'') (checkToolVersions rng tools versions)"
proof -
  have c1: "Code (tool001Finding c) = ''TOOL001''" for c
    by (simp add: tool001Finding_def WithFix_def WithDetails_def NewFinding_def)
  have c2: "Code (tool002Finding c) = ''TOOL002''" for c
    by (simp add: tool002Finding_def WithFix_def WithDetails_def NewFinding_def)
  show ?thesis
    unfolding checkToolVersions_def
    by (rule foldl_list_all) (auto simp: c1 c2)
qed

lemma requiredEnvVars_codes:
  "list_all (\<lambda>f. Code f = ''REQ001'') (checkRequiredEnvVars files a cfg)"
proof -
  have c: "Code (req001Finding r) = ''REQ001''" for r
    by (simp add: req001Finding_def WithFix_def WithDetails_def NewFinding_def)
  show ?thesis
    by (simp add: checkRequiredEnvVars_def Let_def foldl_snoc_if list_all_iff c)
qed

section \<open>Standard variables: proofs\<close>

lemma isStandardVar_list:
  "isStandardVar n =
     (n \<in> set [''HOME'', ''PATH'', ''USER'', ''PWD'', ''SHELL'', ''TERM'', ''HOSTNAME'', ''UID'',
                ''GID''])"
  by (auto simp: isStandardVar_def)

lemma env001Title_inj: "env001Title v = env001Title v' \<Longrightarrow> v = v'"
  by (simp add: env001Title_def)

lemma src001Title_inj: "src001Title v = src001Title v' \<Longrightarrow> v = v'"
  by (simp add: src001Title_def)

lemma env001Finding_sel:
  "Code (env001Finding v p n) = ''ENV001''" "Title (env001Finding v p n) = env001Title v"
  by (simp_all add: env001Finding_def WithFix_def WithFile_def WithDetails_def NewFinding_def)

lemma src001Finding_sel:
  "Code (src001Finding v p n) = ''SRC001''" "Title (src001Finding v p n) = src001Title v"
  by (simp_all add: src001Finding_def WithFix_def WithFile_def WithDetails_def NewFinding_def)

lemma compose_findings_shape:
  assumes "f \<in> set (checkComposeEnvRefs files a)"
  shows "\<exists>v p n. f = env001Finding v p n \<and> \<not> isStandardVar v"
proof -
  from assms obtain cf where "f \<in> set (occurrenceFindings scanLines files a cf)"
    by (auto simp: checkComposeEnvRefs_concat)
  then show ?thesis
    by (auto simp: occurrenceFindings_def split: option.splits if_splits)
qed

lemma source_findings_shape:
  assumes "f \<in> set (checkSourceCodeEnvRefs tree files a)"
  shows "\<exists>v p n. f = src001Finding v p n \<and> \<not> isStandardVar v"
proof -
  from assms obtain x where x: "x \<in> set (firstOccurrences [] (undefinedRefs files a tree))"
      and f: "f = (\<lambda>(v, p, n). src001Finding v p n) x"
    by (auto simp: checkSource_first)
  from x have "x \<in> set (undefinedRefs files a tree)"
    using firstOccurrences_subset by blast
  then have "\<not> isStandardVar (fst x)" by (auto simp: undefinedRefs_def)
  then show ?thesis using f by (cases x) auto
qed

lemma envExample_codes:
  assumes "f \<in> set (checkEnvExample r files a)"
  shows "Code f = ''ENV003'' \<or> Code f = ''ENV002''"
proof -
  have c3: "Code (env003Finding p) = ''ENV003''" for p
    by (simp add: env003Finding_def WithFix_def WithFile_def WithDetails_def NewFinding_def)
  have c2: "Code (env002Finding p q k) = ''ENV002''" for p q k
    by (simp add: env002Finding_def WithFix_def WithDetails_def NewFinding_def)
  show ?thesis
    using assms
    by (auto simp: checkEnvExample_def Let_def foldl_snoc_if c3 c2
        split: if_splits option.splits)
qed

lemma dependsOn_codes:
  assumes "f \<in> set (checkComposeDependsOn unmarshal files a)"
  shows "Code f = ''CMP001''"
proof -
  have c: "Code (cmp001Finding s d p) = ''CMP001''" for s d p
    by (simp add: cmp001Finding_def WithFix_def WithFile_def WithDetails_def NewFinding_def)
  show ?thesis
    using assms
    by (auto simp: checkComposeDependsOn_concat spec_manifestFindings_def c
        split: option.splits if_splits)
qed

lemma customRules_codes:
  assumes "f \<in> set (checkCustomRules compile files a cfg)"
  shows "take 7 (Code f) = ''CUSTOM-''"
proof -
  have c: "Code (customFinding rule) = ''CUSTOM-'' @ ID rule" for rule
    by (simp add: customFinding_def WithFix_def WithDetails_def NewFinding_def)
  show ?thesis
    using assms
    by (auto simp: checkCustomRules_concat spec_ruleFindings_def c
        split: option.splits if_splits)
qed

lemma other_code_exempt:
  "Code f \<noteq> ''ENV001'' \<Longrightarrow> Code f \<noteq> ''SRC001'' \<Longrightarrow> exempt n f"
  by (simp add: exempt_def)

lemma rawFindings_exempt:
  assumes "isStandardVar n"
  shows "list_all (exempt n) (rawFindings w a en config ct)"
proof -
  have e1: "list_all (exempt n) (checkComposeEnvRefs files a)" for files
  proof -
    have "exempt n f" if "f \<in> set (checkComposeEnvRefs files a)" for f
    proof -
      from compose_findings_shape[OF that] obtain v p k
        where f: "f = env001Finding v p k" and v: "\<not> isStandardVar v" by blast
      have "v \<noteq> n" using v assms by auto
      then have "env001Title v \<noteq> env001Title n" using env001Title_inj by blast
      then show ?thesis by (simp add: f env001Finding_sel exempt_def)
    qed
    then show ?thesis by (simp add: list_all_iff)
  qed
  have e2: "list_all (exempt n) (sourceFindings en tree files a)" for tree files
  proof -
    have "exempt n f" if "f \<in> set (sourceFindings en tree files a)" for f
    proof -
      from that have "f \<in> set (checkSourceCodeEnvRefs tree files a)"
        by (simp add: sourceFindings_def split: if_splits)
      from source_findings_shape[OF this] obtain v p k
        where f: "f = src001Finding v p k" and v: "\<not> isStandardVar v" by blast
      have "v \<noteq> n" using v assms by auto
      then have "src001Title v \<noteq> src001Title n" using src001Title_inj by blast
      then show ?thesis by (simp add: f src001Finding_sel exempt_def)
    qed
    then show ?thesis by (simp add: list_all_iff)
  qed
  have e3: "list_all (exempt n) (checkEnvExample r files a)" for r files
  proof -
    have "exempt n f" if "f \<in> set (checkEnvExample r files a)" for f
      using envExample_codes[OF that] by (auto intro!: other_code_exempt)
    then show ?thesis by (simp add: list_all_iff)
  qed
  have e4: "list_all (exempt n) (checkComposeDependsOn u files a)" for u files
    using dependsOn_codes[of _ u files a] by (auto simp: list_all_iff intro!: other_code_exempt)
  have e5: "list_all (exempt n) (checkBuildContexts u j ne files a)" for u j ne files
    using buildContexts_codes[of u j ne files a]
    by (auto simp: list_all_iff intro!: other_code_exempt)
  have e6: "list_all (exempt n) (addLanguageInfo a)"
    using languageInfo_codes[of a] by (auto simp: list_all_iff intro!: other_code_exempt)
  have e7: "list_all (exempt n) (checkReadmeHints l files a)" for l files
    using readmeHints_codes[of l files a] by (auto simp: list_all_iff intro!: other_code_exempt)
  have e8: "list_all (exempt n) (checkToolVersions rng tools versions)" for rng tools versions
    using toolVersions_codes[of rng tools versions]
    by (auto simp: list_all_iff intro!: other_code_exempt)
  have e9: "list_all (exempt n) (checkCustomRules c files a cfg)" for c files cfg
  proof -
    have "exempt n f" if "f \<in> set (checkCustomRules c files a cfg)" for f
    proof -
      have "take 7 ''ENV001'' \<noteq> ''CUSTOM-''" "take 7 ''SRC001'' \<noteq> ''CUSTOM-''" by simp_all
      then have "Code f \<noteq> ''ENV001''" "Code f \<noteq> ''SRC001''"
        using customRules_codes[OF that] by metis+
      then show ?thesis by (rule other_code_exempt)
    qed
    then show ?thesis by (simp add: list_all_iff)
  qed
  have e10: "list_all (exempt n) (checkRequiredEnvVars files a cfg)" for files cfg
    using requiredEnvVars_codes[of files a cfg]
    by (auto simp: list_all_iff intro!: other_code_exempt)
  show ?thesis
    by (simp add: rawFindings_def e1 e2 e3 e4 e5 e6 e7 e8 e9 e10 split: option.splits)
qed

lemma CheckWithOptions_subset:
  "set (CheckWithOptions w a en config ct) \<subseteq> set (rawFindings w a en config ct)"
  by (auto simp: CheckWithOptions_def Let_def filterIgnoredFindings_filter split: option.splits)

lemma runScan_subset:
  "set (runScan w a cfg p ct) \<subseteq> set (rawFindings w a (EnableSourceScanning p) (Some cfg) ct)"
  by (auto simp: runScan_eq applyFilters_def FilterFindings_filter filterIgnoredFindings_filter)

text \<open>
  Claim C5: for a name of the standard set, no finding of the compose scanner (all of
  code \<open>ENV001\<close>) and no finding of the source scanner (all of code \<open>SRC001\<close>) is the
  finding of that name, whatever the compose files, the source files and the environment
  files hold; and no finding of all the checks together, before or after the ignore-code
  and profile filters, is the \<open>ENV001\<close> or the \<open>SRC001\<close> finding of that name.
\<close>

theorem C5_standard_vars_exempt:
  assumes "n \<in> set [''HOME'', ''PATH'', ''USER'', ''PWD'', ''SHELL'', ''TERM'', ''HOSTNAME'',
                      ''UID'', ''GID'']"
  shows "(\<forall>f \<in> set (checkComposeEnvRefs files a).
            Code f = ''ENV001'' \<and> Title f \<noteq> env001Title n) \<and>
         (\<forall>f \<in> set (sourceFindings enabled tree files a).
            Code f = ''SRC001'' \<and> Title f \<noteq> src001Title n) \<and>
         (\<forall>f \<in> set (rawFindings w b en config ct) \<union> set (CheckWithOptions w b en config ct) \<union>
                 set (runScan w b cfg p ct).
            exempt n f)"
proof -
  have std: "isStandardVar n" using assms isStandardVar_list by blast
  have p1: "Code f = ''ENV001'' \<and> Title f \<noteq> env001Title n"
    if "f \<in> set (checkComposeEnvRefs files a)" for f
  proof -
    from compose_findings_shape[OF that] obtain v p k
      where f: "f = env001Finding v p k" and v: "\<not> isStandardVar v" by blast
    have "v \<noteq> n" using v std by auto
    then have "env001Title v \<noteq> env001Title n" using env001Title_inj by blast
    then show ?thesis by (simp add: f env001Finding_sel)
  qed
  have p2: "Code f = ''SRC001'' \<and> Title f \<noteq> src001Title n"
    if "f \<in> set (sourceFindings enabled tree files a)" for f
  proof -
    from that have "f \<in> set (checkSourceCodeEnvRefs tree files a)"
      by (simp add: sourceFindings_def split: if_splits)
    from source_findings_shape[OF this] obtain v p k
      where f: "f = src001Finding v p k" and v: "\<not> isStandardVar v" by blast
    have "v \<noteq> n" using v std by auto
    then have "src001Title v \<noteq> src001Title n" using src001Title_inj by blast
    then show ?thesis by (simp add: f src001Finding_sel)
  qed
  have p3: "exempt n f"
    if "f \<in> set (rawFindings w b en config ct) \<union> set (CheckWithOptions w b en config ct) \<union>
            set (runScan w b cfg p ct)" for f
  proof -
    have r: "exempt n g" if "g \<in> set (rawFindings w b e c t)" for g e c t
      using rawFindings_exempt[OF std, of w b e c t] that by (simp add: list_all_iff)
    from that consider "f \<in> set (rawFindings w b en config ct)"
      | "f \<in> set (CheckWithOptions w b en config ct)"
      | "f \<in> set (runScan w b cfg p ct)" by auto
    then show ?thesis
    proof cases
      case 1
      then show ?thesis by (rule r)
    next
      case 2
      then have "f \<in> set (rawFindings w b en config ct)"
        using CheckWithOptions_subset by blast
      then show ?thesis by (rule r)
    next
      case 3
      then have "f \<in> set (rawFindings w b (EnableSourceScanning p) (Some cfg) ct)"
        using runScan_subset by blast
      then show ?thesis by (rule r)
    qed
  qed
  have q1: "\<forall>f \<in> set (checkComposeEnvRefs files a).
            Code f = ''ENV001'' \<and> Title f \<noteq> env001Title n"
    by (intro ballI) (rule p1)
  have q2: "\<forall>f \<in> set (sourceFindings enabled tree files a).
            Code f = ''SRC001'' \<and> Title f \<noteq> src001Title n"
    by (intro ballI) (rule p2)
  have q3: "\<forall>f \<in> set (rawFindings w b en config ct) \<union> set (CheckWithOptions w b en config ct) \<union>
                 set (runScan w b cfg p ct).
            exempt n f"
    by (intro ballI) (rule p3)
  show ?thesis by (intro conjI; (fact q1 | fact q2 | fact q3))
qed

text \<open>
  The theorem at \<open>HOME\<close>, in a project whose compose file refers to \<open>${HOME}\<close> and
  \<open>${DB}\<close> and whose sources read \<open>HOME\<close>, \<open>PORT\<close> and \<open>API_KEY\<close>: the findings are those of
  \<open>DB\<close>, \<open>PORT\<close> and \<open>API_KEY\<close>, none is the finding of \<open>HOME\<close>.
\<close>

theorem C5_standard_vars_exempt_witness:
  "''HOME'' \<in> set [''HOME'', ''PATH'', ''USER'', ''PWD'', ''SHELL'', ''TERM'', ''HOSTNAME'',
                     ''UID'', ''GID''] \<and>
   map Title (checkComposeEnvRefs refsProject composeAndEnv)
     = [env001Title ''DB'', env001Title ''DB''] \<and>
   env001Title ''HOME'' \<notin> Title ` set (checkComposeEnvRefs refsProject composeAndEnv) \<and>
   map Title (sourceFindings True sourceTree refsProject composeAndEnv)
     = [src001Title ''PORT'', src001Title ''API_KEY''] \<and>
   src001Title ''HOME'' \<notin> Title ` set (sourceFindings True sourceTree refsProject composeAndEnv)"
proof -
  have h: "''HOME'' \<in> set [''HOME'', ''PATH'', ''USER'', ''PWD'', ''SHELL'', ''TERM'',
                             ''HOSTNAME'', ''UID'', ''GID'']"
    by simp
  note t = C5_standard_vars_exempt [OF h, of refsProject composeAndEnv True sourceTree]
  have a: "env001Title ''HOME'' \<notin> Title ` set (checkComposeEnvRefs refsProject composeAndEnv)"
    using t [THEN conjunct1] by (metis imageE)
  have b: "src001Title ''HOME''
      \<notin> Title ` set (sourceFindings True sourceTree refsProject composeAndEnv)"
    using t [THEN conjunct2, THEN conjunct1] by (metis imageE)
  have c: "map Title (checkComposeEnvRefs refsProject composeAndEnv)
     = [env001Title ''DB'', env001Title ''DB'']"
    by code_simp
  have d: "map Title (sourceFindings True sourceTree refsProject composeAndEnv)
     = [src001Title ''PORT'', src001Title ''API_KEY'']"
    by code_simp
  show ?thesis by (intro conjI; (fact h | fact a | fact b | fact c | fact d))
qed

end
